theory Spec2Isabelle
  imports Complex_Main
begin

section \<open>Data model\<close>

text \<open>
  The JavaScript objects of \<^verbatim>\<open>src/core/issue-detector.js\<close>,
  \<^verbatim>\<open>src/core/visual-agent.js\<close> and \<^verbatim>\<open>src/analyzers/pixel-comparator.js\<close>
  are modelled as records. String literals that the source writes in Russian are
  transliterated to ASCII; no decision of the code reads their characters. The free-text
  fields \<^verbatim>\<open>description\<close>, \<^verbatim>\<open>fix.suggestion\<close>, \<^verbatim>\<open>fix.css\<close>,
  \<^verbatim>\<open>fix.html\<close> and the copied \<^verbatim>\<open>viewport\<close> of an issue are write-only in
  the source and are left out of the issue record.
\<close>

text \<open>The values of \<^verbatim>\<open>issue.type\<close> that the detector writes.\<close>

datatype issue_type = Layout | Accessibility | Typography

fun type_name :: "issue_type \<Rightarrow> string" where
  "type_name Layout = ''layout''"
| "type_name Accessibility = ''accessibility''"
| "type_name Typography = ''typography''"

datatype severity_level = Critical | Warning | Info

datatype fix_action = Css_change | Html_change

text \<open>The element descriptor attached to an issue; the image check has no \<^verbatim>\<open>tag\<close>.\<close>

record element =
  tag :: "string option"
  selector :: string

text \<open>
  An issue. \<^verbatim>\<open>element\<close> is \<open>None\<close> for \<^verbatim>\<open>null\<close>;
  \<^verbatim>\<open>affected_devices\<close> and \<^verbatim>\<open>colorScheme\<close> are \<open>None\<close> while the
  property is absent from the object.
\<close>

record issue =
  issue_id :: string
  itype :: issue_type
  severity :: severity_level
  title :: string
  device :: string
  element :: "element option"
  fix_act :: fix_action
  fix_target :: string
  wcag :: "string option"
  blocks_release :: bool
  colorScheme :: "string option"
  affected_devices :: "string list option"

section \<open>Deduplication (\<^verbatim>\<open>VisualQAAgent.deduplicateIssues\<close>)\<close>

text \<open>
  \<^verbatim>\<open>issue.element?.selector || issue.title\<close>: the selector when the element is
  present and its selector is a non-empty string, the title otherwise.
\<close>

definition selector_or_title :: "issue \<Rightarrow> string" where
  "selector_or_title i =
     (case element i of
        None \<Rightarrow> title i
      | Some e \<Rightarrow> if selector e = [] then title i else selector e)"

text \<open>The key \<^verbatim>\<open>`${issue.type}-${issue.element?.selector || issue.title}`\<close>.\<close>

definition dedup_key :: "issue \<Rightarrow> string" where
  "dedup_key i = type_name (itype i) @ ''-'' @ selector_or_title i"

text \<open>
  The \<^verbatim>\<open>Map\<close> named \<^verbatim>\<open>seen\<close> is an association list in insertion order,
  which is the order \<^verbatim>\<open>seen.values()\<close> iterates in. \<open>map_of\<close> reads it,
  \<open>map_mutate\<close> changes the object stored under a key in place and \<open>map_set_new\<close>
  is \<^verbatim>\<open>seen.set\<close> for a key that is not yet present.
\<close>

type_synonym seen_map = "(string \<times> issue) list"

fun map_mutate :: "string \<Rightarrow> (issue \<Rightarrow> issue) \<Rightarrow> seen_map \<Rightarrow> seen_map" where
  "map_mutate k f [] = []"
| "map_mutate k f ((k', v) # rest) =
     (if k' = k then (k', f v) # rest else (k', v) # map_mutate k f rest)"

definition map_set_new :: "string \<Rightarrow> issue \<Rightarrow> seen_map \<Rightarrow> seen_map" where
  "map_set_new k v m = m @ [(k, v)]"

text \<open>\<^verbatim>\<open>if (!arr.includes(d)) arr.push(d)\<close>\<close>

definition push_if_absent :: "string list \<Rightarrow> string \<Rightarrow> string list" where
  "push_if_absent arr d = (if d \<in> set arr then arr else arr @ [d])"

text \<open>The body of the \<^verbatim>\<open>seen.has(key)\<close> branch, acting on the stored object.\<close>

definition add_device :: "string \<Rightarrow> issue \<Rightarrow> issue" where
  "add_device d existing =
     (let devs = (case affected_devices existing of
                    None \<Rightarrow> [device existing]
                  | Some ds \<Rightarrow> ds)
      in existing\<lparr>affected_devices := Some (push_if_absent devs d)\<rparr>)"

definition dedup_step :: "seen_map \<Rightarrow> issue \<Rightarrow> seen_map" where
  "dedup_step seen i =
     (let key = dedup_key i in
      case map_of seen key of
        Some existing \<Rightarrow> map_mutate key (add_device (device i)) seen
      | None \<Rightarrow> map_set_new key (i\<lparr>affected_devices := Some [device i]\<rparr>) seen)"

definition deduplicateIssues :: "issue list \<Rightarrow> issue list" where
  "deduplicateIssues issues = map snd (foldl dedup_step [] issues)"

subsection \<open>Vocabulary of the statements\<close>

text \<open>The elements of a list in the order of their first occurrence.\<close>

definition first_occurrences :: "'a list \<Rightarrow> 'a list" where
  "first_occurrences xs = foldl (\<lambda>acc x. if x \<in> set acc then acc else acc @ [x]) [] xs"

text \<open>The issues of a list that share a deduplication key.\<close>

definition key_group :: "string \<Rightarrow> issue list \<Rightarrow> issue list" where
  "key_group k xs = filter (\<lambda>i. dedup_key i = k) xs"

text \<open>The record a non-empty group collapses to.\<close>

definition canonical :: "issue list \<Rightarrow> issue" where
  "canonical g = (hd g)\<lparr>affected_devices := Some (first_occurrences (map device g))\<rparr>"

section \<open>Issue detection (\<^verbatim>\<open>IssueDetector\<close>)\<close>

record viewport =
  vp_width :: nat
  vp_height :: nat

text \<open>
  A device as \<^verbatim>\<open>getDevicesForProfile\<close> hands it out: the entry of
  \<^verbatim>\<open>devices.json\<close> with its \<^verbatim>\<open>id\<close>. An absent \<^verbatim>\<open>is_mobile\<close> or
  \<^verbatim>\<open>has_touch\<close> is \<open>False\<close>, as the source's truth tests read it.
\<close>

record device_profile =
  dev_id :: string
  name :: string
  dev_viewport :: viewport
  is_mobile :: bool
  has_touch :: bool

text \<open>What the scripts run by \<^verbatim>\<open>page.evaluate\<close> return for one element.\<close>

record dom_finding =
  f_tag :: string
  f_selector :: string

record text_finding =
  t_tag :: string
  t_text :: string
  t_selector :: string

record img_finding =
  i_src :: string
  i_selector :: string

text \<open>
  A colour as \<^verbatim>\<open>parseColor\<close> returns it: the first three numbers of a computed
  style of the form \<^verbatim>\<open>rgb(r, g, b)\<close> or \<^verbatim>\<open>rgba(r, g, b, a)\<close>.
\<close>

record rgb =
  red :: nat
  green :: nat
  blue :: nat

text \<open>
  A text element as the contrast script reads it. \<open>te_tag\<close> is
  \<^verbatim>\<open>el.tagName.toLowerCase()\<close>; \<open>te_color\<close> and \<open>te_bgColor\<close> are the results of
  \<^verbatim>\<open>parseColor\<close> on the computed \<^verbatim>\<open>color\<close> and \<^verbatim>\<open>backgroundColor\<close>,
  \<open>None\<close> where the regular expression does not match (\<^verbatim>\<open>null\<close>).
\<close>

record text_element =
  te_id :: string
  te_className :: string
  te_tag :: string
  te_textContent :: string
  te_color :: "rgb option"
  te_bgColor :: "rgb option"

text \<open>
  The page as the detector sees it: per script, either the message of the exception that
  \<^verbatim>\<open>page.evaluate\<close> rejects with (\<open>Inl\<close>) or the returned value (\<open>Inr\<close>). The
  contrast script is modelled in full, so the page gives the elements that its
  \<^verbatim>\<open>querySelectorAll\<close> selects, in document order; the other scripts are taken by
  their results.
\<close>

record page =
  hasHorizontalScroll :: "string + bool"
  overflowingElement :: "string + dom_finding option"
  overflowingElements :: "string + dom_finding list"
  smallTargets :: "string + text_finding list"
  textElements :: "string + text_element list"
  smallTextElements :: "string + text_finding list"
  imagesWithoutAlt :: "string + img_finding list"

subsection \<open>The contrast script\<close>

text \<open>
  JavaScript numbers are modelled by real numbers; rounding of the floating-point
  operations is not modelled. \<^verbatim>\<open>Math.pow(x, 2.4)\<close> on a positive base is \<open>x powr 2.4\<close>.
\<close>

definition channel :: "nat \<Rightarrow> real" where
  "channel c =
     (let c' = real c / 255
      in if c' \<le> 0.03928 then c' / 12.92 else ((c' + 0.055) / 1.055) powr 2.4)"

definition getLuminance :: "nat \<Rightarrow> nat \<Rightarrow> nat \<Rightarrow> real" where
  "getLuminance r g b = 0.2126 * channel r + 0.7152 * channel g + 0.0722 * channel b"

definition getContrastRatio :: "real \<Rightarrow> real \<Rightarrow> real" where
  "getContrastRatio l1 l2 =
     (let lighter = max l1 l2; darker = min l1 l2
      in (lighter + 0.05) / (darker + 0.05))"

text \<open>
  The ratio the script computes for an element, when it computes one: both colours parsed
  and \<^verbatim>\<open>bgColor.r + bgColor.g + bgColor.b > 0\<close>.
\<close>

definition element_ratio :: "text_element \<Rightarrow> real option" where
  "element_ratio el =
     (case (te_color el, te_bgColor el) of
        (Some color, Some bgColor) \<Rightarrow>
          if red bgColor + green bgColor + blue bgColor > 0
          then Some (getContrastRatio
                       (getLuminance (red color) (green color) (blue color))
                       (getLuminance (red bgColor) (green bgColor) (blue bgColor)))
          else None
      | _ \<Rightarrow> None)"

text \<open>The guard \<^verbatim>\<open>ratio < 4.5 && ratio > 1\<close> of \<^verbatim>\<open>results.push\<close>.\<close>

definition ratio_guard :: "real \<Rightarrow> bool" where
  "ratio_guard ratio = (ratio < 4.5 \<and> ratio > 1)"

text \<open>Whether the script pushes a finding for the element.\<close>

definition low_contrast :: "text_element \<Rightarrow> bool" where
  "low_contrast el =
     (case element_ratio el of
        None \<Rightarrow> False
      | Some ratio \<Rightarrow> ratio_guard ratio)"

text \<open>\<^verbatim>\<open>className.split(' ')[0]\<close>\<close>

definition first_class :: "string \<Rightarrow> string" where
  "first_class cls = takeWhile (\<lambda>c. c \<noteq> CHR '' '') cls"

text \<open>
  \<^verbatim>\<open>el.id ? `#${el.id}` : el.className ? `.${el.className.split(' ')[0]}` : el.tagName.toLowerCase()\<close>
\<close>

definition css_selector :: "string \<Rightarrow> string \<Rightarrow> string \<Rightarrow> string" where
  "css_selector eid cls tg =
     (if eid \<noteq> [] then ''#'' @ eid
      else if cls \<noteq> [] then ''.'' @ first_class cls
      else tg)"

definition contrast_finding :: "text_element \<Rightarrow> text_finding" where
  "contrast_finding el =
     \<lparr>t_tag = te_tag el,
      t_text = take 30 (te_textContent el),
      t_selector = css_selector (te_id el) (te_className el) (te_tag el)\<rparr>"

text \<open>The \<^verbatim>\<open>forEach\<close> that pushes the findings, then \<^verbatim>\<open>results.slice(0, 5)\<close>.\<close>

definition contrast_results :: "text_element list \<Rightarrow> text_finding list" where
  "contrast_results els = map contrast_finding (filter low_contrast els)"

definition lowContrastElements :: "text_element list \<Rightarrow> text_finding list" where
  "lowContrastElements els = take 5 (contrast_results els)"

subsection \<open>The checks\<close>

definition dq :: string where
  "dq = [CHR 0x22]"

definition dom_element :: "dom_finding \<Rightarrow> element" where
  "dom_element el = \<lparr>tag = Some (f_tag el), selector = f_selector el\<rparr>"

definition text_element_of :: "text_finding \<Rightarrow> element" where
  "text_element_of el = \<lparr>tag = Some (t_tag el), selector = t_selector el\<rparr>"

definition img_element :: "img_finding \<Rightarrow> element" where
  "img_element img = \<lparr>tag = None, selector = i_selector img\<rparr>"

text \<open>\<^verbatim>\<open>overflowingElement?.selector || 'body'\<close>\<close>

definition scroll_target :: "dom_finding option \<Rightarrow> string" where
  "scroll_target oe =
     (case oe of
        None \<Rightarrow> ''body''
      | Some el \<Rightarrow> if f_selector el = [] then ''body'' else f_selector el)"

definition checkHorizontalScroll :: "page \<Rightarrow> device_profile \<Rightarrow> issue option" where
  "checkHorizontalScroll pg dev =
     (case hasHorizontalScroll pg of
        Inl e \<Rightarrow> None
      | Inr False \<Rightarrow> None
      | Inr True \<Rightarrow>
          (case overflowingElement pg of
             Inl e \<Rightarrow> None
           | Inr oe \<Rightarrow>
               Some \<lparr>issue_id = ''horizontal-scroll-'' @ dev_id dev,
                     itype = Layout,
                     severity = Critical,
                     title = ''Gorizontalnyj skroll na stranice'',
                     device = name dev,
                     element = map_option dom_element oe,
                     fix_act = Css_change,
                     fix_target = scroll_target oe,
                     wcag = None,
                     blocks_release = True,
                     colorScheme = None,
                     affected_devices = None\<rparr>))"

definition overflow_issue :: "device_profile \<Rightarrow> dom_finding \<Rightarrow> issue" where
  "overflow_issue dev el =
     \<lparr>issue_id = ''overflow-'' @ f_tag el @ ''-'' @ dev_id dev,
      itype = Layout,
      severity = Critical,
      title = ''Element '' @ f_tag el @ '' vyhodit za granicy ekrana'',
      device = name dev,
      element = Some (dom_element el),
      fix_act = Css_change,
      fix_target = f_selector el,
      wcag = None,
      blocks_release = True,
      colorScheme = None,
      affected_devices = None\<rparr>"

definition checkOverflow :: "page \<Rightarrow> device_profile \<Rightarrow> issue list" where
  "checkOverflow pg dev =
     (case overflowingElements pg of
        Inl e \<Rightarrow> []
      | Inr els \<Rightarrow> map (overflow_issue dev) els)"

definition touch_issue :: "device_profile \<Rightarrow> text_finding \<Rightarrow> issue" where
  "touch_issue dev el =
     \<lparr>issue_id = ''touch-target-'' @ t_selector el @ ''-'' @ dev_id dev,
      itype = Accessibility,
      severity = Warning,
      title = ''Touch target slishkom malenkij: '' @
                (if t_text el \<noteq> [] then t_text el else t_tag el),
      device = name dev,
      element = Some (text_element_of el),
      fix_act = Css_change,
      fix_target = t_selector el,
      wcag = Some ''2.5.5'',
      blocks_release = False,
      colorScheme = None,
      affected_devices = None\<rparr>"

definition checkTouchTargets :: "page \<Rightarrow> device_profile \<Rightarrow> issue list" where
  "checkTouchTargets pg dev =
     (case smallTargets pg of
        Inl e \<Rightarrow> []
      | Inr els \<Rightarrow> map (touch_issue dev) els)"

definition contrast_issue :: "device_profile \<Rightarrow> text_finding \<Rightarrow> issue" where
  "contrast_issue dev el =
     \<lparr>issue_id = ''contrast-'' @ t_selector el @ ''-'' @ dev_id dev,
      itype = Accessibility,
      severity = Warning,
      title = ''Nizkij kontrast teksta: '' @ dq @ t_text el @ dq,
      device = name dev,
      element = Some (text_element_of el),
      fix_act = Css_change,
      fix_target = t_selector el,
      wcag = Some ''1.4.3'',
      blocks_release = False,
      colorScheme = None,
      affected_devices = None\<rparr>"

definition checkContrast :: "page \<Rightarrow> device_profile \<Rightarrow> issue list" where
  "checkContrast pg dev =
     (case textElements pg of
        Inl e \<Rightarrow> []
      | Inr els \<Rightarrow> map (contrast_issue dev) (lowContrastElements els))"

definition font_issue :: "device_profile \<Rightarrow> text_finding \<Rightarrow> issue" where
  "font_issue dev el =
     \<lparr>issue_id = ''font-size-'' @ t_selector el @ ''-'' @ dev_id dev,
      itype = Typography,
      severity = Warning,
      title = ''Slishkom melkij tekst: '' @ dq @ t_text el @ dq,
      device = name dev,
      element = Some (text_element_of el),
      fix_act = Css_change,
      fix_target = t_selector el,
      wcag = Some ''1.4.4'',
      blocks_release = False,
      colorScheme = None,
      affected_devices = None\<rparr>"

definition checkFontSize :: "page \<Rightarrow> device_profile \<Rightarrow> issue list" where
  "checkFontSize pg dev =
     (case smallTextElements pg of
        Inl e \<Rightarrow> []
      | Inr els \<Rightarrow> map (font_issue dev) els)"

definition img_alt_issue :: "device_profile \<Rightarrow> img_finding \<Rightarrow> issue" where
  "img_alt_issue dev img =
     \<lparr>issue_id = ''img-alt-'' @ dev_id dev,
      itype = Accessibility,
      severity = Critical,
      title = ''Izobrazhenie bez alt-teksta'',
      device = name dev,
      element = Some (img_element img),
      fix_act = Html_change,
      fix_target = i_selector img,
      wcag = Some ''1.1.1'',
      blocks_release = True,
      colorScheme = None,
      affected_devices = None\<rparr>"

definition checkImageAlt :: "page \<Rightarrow> device_profile \<Rightarrow> issue list" where
  "checkImageAlt pg dev =
     (case imagesWithoutAlt pg of
        Inl e \<Rightarrow> []
      | Inr imgs \<Rightarrow> map (img_alt_issue dev) imgs)"

definition checkOverlap :: "page \<Rightarrow> device_profile \<Rightarrow> issue list" where
  "checkOverlap pg dev = []"

subsection \<open>\<^verbatim>\<open>prioritizeIssues\<close> and \<^verbatim>\<open>detectIssues\<close>\<close>

fun severityOrder :: "severity_level \<Rightarrow> int" where
  "severityOrder Critical = 0"
| "severityOrder Warning = 1"
| "severityOrder Info = 2"

text \<open>The comparator passed to \<^verbatim>\<open>issues.sort\<close>.\<close>

definition compareIssues :: "issue \<Rightarrow> issue \<Rightarrow> int" where
  "compareIssues a b =
     (let severityDiff = severityOrder (severity a) - severityOrder (severity b)
      in if severityDiff \<noteq> 0 then severityDiff
         else if itype a = Accessibility \<and> itype b \<noteq> Accessibility then - 1
         else if itype b = Accessibility \<and> itype a \<noteq> Accessibility then 1
         else 0)"

text \<open>
  \<^verbatim>\<open>Array.prototype.sort\<close> is a stable sort: an insertion sort that, taking the
  elements from the right, puts each before the first one it does not compare greater than.
\<close>

fun insert_issue :: "issue \<Rightarrow> issue list \<Rightarrow> issue list" where
  "insert_issue x [] = [x]"
| "insert_issue x (y # ys) =
     (if compareIssues x y \<le> 0 then x # y # ys else y # insert_issue x ys)"

definition prioritizeIssues :: "issue list \<Rightarrow> issue list" where
  "prioritizeIssues issues = foldr insert_issue issues []"

definition detectIssues :: "page \<Rightarrow> device_profile \<Rightarrow> issue list" where
  "detectIssues pg dev =
     prioritizeIssues
       ((case checkHorizontalScroll pg dev of None \<Rightarrow> [] | Some i \<Rightarrow> [i]) @
        checkOverflow pg dev @
        (if is_mobile dev \<or> has_touch dev then checkTouchTargets pg dev else []) @
        checkContrast pg dev @
        checkFontSize pg dev @
        checkImageAlt pg dev @
        checkOverlap pg dev)"

section \<open>Pixel comparison (\<^verbatim>\<open>PixelComparator.compare\<close>)\<close>

text \<open>A decoded PNG: its dimensions and its RGBA bytes.\<close>

record png =
  png_width :: nat
  png_height :: nat
  png_data :: "nat list"

text \<open>
  A JavaScript number that a division can produce: a finite value, \<^verbatim>\<open>NaN\<close> or
  \<^verbatim>\<open>Infinity\<close>. Finite values are exact rationals; rounding of the floating-point
  operations is not modelled.
\<close>

datatype jsnum = Num rat | NaN | Infinity

text \<open>\<^verbatim>\<open>(diffPixels / totalPixels) * 100\<close>\<close>

definition percent_of :: "nat \<Rightarrow> nat \<Rightarrow> jsnum" where
  "percent_of diffPx totalPx =
     (if totalPx = 0 then (if diffPx = 0 then NaN else Infinity)
      else Num (rat_of_nat diffPx / rat_of_nat totalPx * 100))"

text \<open>
  \<^verbatim>\<open>parseFloat(x.toFixed(4))\<close>, on the exact quotient: where the double nearest to
  the quotient lies on the other side of a rounding boundary, the last digit can differ
  from the code's. At zero both agree.
\<close>

fun toFixed4 :: "jsnum \<Rightarrow> jsnum" where
  "toFixed4 (Num x) = Num (rat_of_int (round (x * 10000)) / 10000)"
| "toFixed4 NaN = NaN"
| "toFixed4 Infinity = Infinity"

text \<open>
  The object \<^verbatim>\<open>compare\<close> returns. A field is \<open>None\<close> when the object has no such
  property; \<open>diffImagePath\<close> is \<open>None\<close> also when the property is \<^verbatim>\<open>null\<close>.
\<close>

record compare_result =
  success :: bool
  error_text :: "string option"
  sizeMismatch :: "bool option"
  image1 :: "(nat \<times> nat) option"
  image2 :: "(nat \<times> nat) option"
  message :: "string option"
  match :: "bool option"
  diffPixels :: "nat option"
  totalPixels :: "nat option"
  diffPercent :: "jsnum option"
  dimensions :: "(nat \<times> nat) option"
  diffImagePath :: "string option"

definition no_result :: compare_result where
  "no_result =
     \<lparr>success = False, error_text = None, sizeMismatch = None, image1 = None, image2 = None,
      message = None, match = None, diffPixels = None, totalPixels = None,
      diffPercent = None, dimensions = None, diffImagePath = None\<rparr>"

text \<open>Decimal digits of a number, as a template literal prints it.\<close>

fun show_nat :: "nat \<Rightarrow> string" where
  "show_nat n =
     (if n < 10 then [char_of (48 + n)]
      else show_nat (n div 10) @ [char_of (48 + n mod 10)])"

definition size_message :: "png \<Rightarrow> png \<Rightarrow> string" where
  "size_message img1 img2 =
     ''Razmery izobrazhenij razlichajutsja: '' @
     show_nat (png_width img1) @ ''x'' @ show_nat (png_height img1) @ '' vs '' @
     show_nat (png_width img2) @ ''x'' @ show_nat (png_height img2)"

text \<open>
  The collaborators of \<^verbatim>\<open>compare\<close> are parameters:
  \<^item> \<open>loadPNG\<close> gives the decoded image of a path, \<open>None\<close> where decoding fails
    (the promise resolves to \<^verbatim>\<open>null\<close>);
  \<^item> \<open>pixelmatch\<close> is the library function with the comparator's options applied: from
    the two buffers and the dimensions it gives the number of differing pixels and the
    bytes it writes to the diff buffer;
  \<^item> \<open>savePNG\<close> stands for \<^verbatim>\<open>fs.ensureDir\<close> followed by \<^verbatim>\<open>this.savePNG\<close>:
    \<open>Some\<close> message when one of them rejects.
  The result is \<open>Inl\<close> the message when \<^verbatim>\<open>compare\<close> rejects, else the returned object
  with the list of files written.
\<close>

definition compare ::
  "(string \<Rightarrow> png option) \<Rightarrow> (nat list \<Rightarrow> nat list \<Rightarrow> nat \<Rightarrow> nat \<Rightarrow> nat \<times> nat list) \<Rightarrow>
   (png \<Rightarrow> string \<Rightarrow> string option) \<Rightarrow> string \<Rightarrow> string \<Rightarrow> string option \<Rightarrow>
   string + compare_result \<times> (string \<times> png) list" where
  "compare loadPNG pixelmatch savePNG image1Path image2Path outputDiffPath =
     (case (loadPNG image1Path, loadPNG image2Path) of
        (Some img1, Some img2) \<Rightarrow>
          if png_width img1 \<noteq> png_width img2 \<or> png_height img1 \<noteq> png_height img2
          then Inr (no_result
                 \<lparr>success := False,
                  sizeMismatch := Some True,
                  image1 := Some (png_width img1, png_height img1),
                  image2 := Some (png_width img2, png_height img2),
                  message := Some (size_message img1 img2)\<rparr>, [])
          else
            let w = png_width img1; h = png_height img1;
                (diffPx, diffData) = pixelmatch (png_data img1) (png_data img2) w h;
                diff = \<lparr>png_width = w, png_height = h, png_data = diffData\<rparr>;
                totalPx = w * h;
                res = no_result
                  \<lparr>success := True,
                   match := Some (diffPx = 0),
                   diffPixels := Some diffPx,
                   totalPixels := Some totalPx,
                   diffPercent := Some (toFixed4 (percent_of diffPx totalPx)),
                   dimensions := Some (w, h),
                   diffImagePath := (if diffPx > 0 then outputDiffPath else None)\<rparr>
            in (case outputDiffPath of
                  Some path \<Rightarrow>
                    if path \<noteq> [] \<and> diffPx > 0
                    then (case savePNG diff path of
                            Some err \<Rightarrow> Inl err
                          | None \<Rightarrow> Inr (res, [(path, diff)]))
                    else Inr (res, [])
                | None \<Rightarrow> Inr (res, []))
      | _ \<Rightarrow>
          Inr (no_result
                 \<lparr>error_text := Some ''Ne udalos zagruzit izobrazhenija'',
                  success := False\<rparr>, []))"

section \<open>Device matrix (\<^verbatim>\<open>VisualQAAgent.getDevicesForProfile\<close>)\<close>

text \<open>
  \<^verbatim>\<open>devices.json\<close>: JavaScript objects used as dictionaries are association lists
  in the order of \<^verbatim>\<open>Object.values\<close> and \<^verbatim>\<open>Object.entries\<close>. A profile's
  \<^verbatim>\<open>devices\<close> is the string \<^verbatim>\<open>'all'\<close> or a list of device ids. A lookup reads the
  object's own keys only: names that every object inherits, such as \<^verbatim>\<open>toString\<close> or
  \<^verbatim>\<open>constructor\<close>, are not among the profile names and device ids considered.
\<close>

record device_config =
  cfg_name :: string
  cfg_viewport :: viewport
  cfg_is_mobile :: bool
  cfg_has_touch :: bool

datatype profile_devices = All_devices | Device_ids "string list"

record test_profile =
  devices :: profile_devices
  browsers :: "string list"

record devices_json =
  test_profiles :: "(string \<times> test_profile) list"
  device_profiles :: "(string \<times> (string \<times> device_config) list) list"

datatype error = Error string

text \<open>\<^verbatim>\<open>{ id, ...device }\<close>\<close>

definition with_id :: "string \<Rightarrow> device_config \<Rightarrow> device_profile" where
  "with_id i d =
     \<lparr>dev_id = i, name = cfg_name d, dev_viewport = cfg_viewport d,
      is_mobile = cfg_is_mobile d, has_touch = cfg_has_touch d\<rparr>"

text \<open>
  The inner loop over the categories for one device id: the first category that has the
  id, and nothing when the loop ends without a \<^verbatim>\<open>break\<close>.
\<close>

fun find_in_categories ::
  "(string \<times> (string \<times> device_config) list) list \<Rightarrow> string \<Rightarrow> device_profile list" where
  "find_in_categories [] deviceId = []"
| "find_in_categories ((cat, category) # rest) deviceId =
     (case map_of category deviceId of
        Some d \<Rightarrow> [with_id deviceId d]
      | None \<Rightarrow> find_in_categories rest deviceId)"

definition getDevicesForProfile ::
  "devices_json \<Rightarrow> string \<Rightarrow> error + device_profile list \<times> string list" where
  "getDevicesForProfile cfg profileName =
     (case map_of (test_profiles cfg) profileName of
        None \<Rightarrow> Inl (Error (''Profil '' @ dq @ profileName @ dq @ '' ne najden''))
      | Some profile \<Rightarrow>
          let deviceProfiles = device_profiles cfg;
              devicesList =
                (case devices profile of
                   All_devices \<Rightarrow>
                     concat (map (\<lambda>(cat, category). map (\<lambda>(i, d). with_id i d) category)
                                 deviceProfiles)
                 | Device_ids ids \<Rightarrow>
                     concat (map (find_in_categories deviceProfiles) ids))
          in Inr (devicesList, browsers profile))"

section \<open>Orchestration (\<^verbatim>\<open>VisualQAAgent.checkPage\<close>)\<close>

datatype color_scheme = Light | Dark

datatype check_status = St_passed | St_failed | St_warning | St_error

text \<open>
  An entry of \<^verbatim>\<open>results.checks\<close>. The record of a tuple that threw has no
  \<^verbatim>\<open>screenshot\<close> and no \<^verbatim>\<open>issues_count\<close> but an \<^verbatim>\<open>error\<close>; the copied
  \<^verbatim>\<open>viewport\<close>, \<^verbatim>\<open>is_mobile\<close>, \<^verbatim>\<open>issues\<close> and \<^verbatim>\<open>metrics\<close> are left out.
\<close>

record check_record =
  cr_device :: string
  cr_device_id :: string
  cr_browser :: string
  cr_colorScheme :: color_scheme
  cr_screenshot :: "string option"
  cr_status :: check_status
  cr_issues_count :: "nat option"
  cr_error :: "string option"

record summary =
  total :: nat
  passed :: nat
  failed :: nat
  warnings :: nat
  sum_blocks_release :: bool

text \<open>\<^verbatim>\<open>generateSummaryForAgent\<close>, without the sentence \<^verbatim>\<open>action_required\<close>.\<close>

record action_summary =
  total_issues :: nat
  as_blocks_release :: bool
  by_critical :: nat
  by_warning :: nat
  by_info :: nat
  by_layout :: nat
  by_accessibility :: nat
  by_typography :: nat

definition generateSummaryForAgent :: "issue list \<Rightarrow> action_summary" where
  "generateSummaryForAgent is =
     (let critical = filter (\<lambda>i. severity i = Critical) is;
          warns = filter (\<lambda>i. severity i = Warning) is;
          info = filter (\<lambda>i. severity i = Info) is
      in \<lparr>total_issues = length is,
          as_blocks_release = (length critical > 0),
          by_critical = length critical,
          by_warning = length warns,
          by_info = length info,
          by_layout = length (filter (\<lambda>i. itype i = Layout) is),
          by_accessibility = length (filter (\<lambda>i. itype i = Accessibility) is),
          by_typography = length (filter (\<lambda>i. itype i = Typography) is)\<rparr>)"

record check_result =
  res_url :: string
  res_profile :: string
  checks :: "check_record list"
  issues :: "issue list"
  res_summary :: summary
  res_action_summary :: action_summary

text \<open>
  What happens when one tuple is visited, as far as \<^verbatim>\<open>checkPage\<close> can tell:
  \<^item> \<open>Capture_fails msg\<close>: a statement of the \<^verbatim>\<open>try\<close> block before
    \<^verbatim>\<open>allIssues.push\<close> throws an error with this message:
    \<^verbatim>\<open>captureScreenshot\<close> (URL validation, browser launch, navigation with its
    30 s timeout, screenshot), the writing of the screenshot file, or the call of the
    detector;
  \<^item> \<open>Analysed pg now late\<close>: the page \<open>pg\<close> is open for detection, \<open>now\<close> is the text of
    \<^verbatim>\<open>Date.now()\<close>, and \<open>late\<close> is the message of an exception thrown by
    \<^verbatim>\<open>runChecks\<close> after the issues are collected, if any.
  An exception of a script inside one check does not reach \<^verbatim>\<open>checkPage\<close>: the check
  catches it (see \<open>page\<close>). The world answers the n-th visit of a call;
  \<^verbatim>\<open>browser.close()\<close> in the \<^verbatim>\<open>finally\<close> block is taken to succeed.
\<close>

datatype tuple_run =
    Capture_fails string
  | Analysed page string "string option"

type_synonym world = "nat \<Rightarrow> tuple_run"

text \<open>
  The status \<^verbatim>\<open>runChecks\<close> returns: \<^verbatim>\<open>checkLayout\<close> never sets
  \<^verbatim>\<open>hasCritical\<close> and reports a warning when the viewport of the metadata differs
  in width from the device's; \<^verbatim>\<open>basicVisualCheck\<close> does not change the status.
\<close>

definition runChecks_status :: "viewport \<Rightarrow> device_profile \<Rightarrow> check_status" where
  "runChecks_status metadata_viewport dev =
     (if vp_width metadata_viewport \<noteq> vp_width (dev_viewport dev) then St_warning
      else St_passed)"

text \<open>The loop variables: \<^verbatim>\<open>allIssues\<close>, \<^verbatim>\<open>results\<close> and the number of visits made.\<close>

record loop_state =
  allIssues :: "issue list"
  st_checks :: "check_record list"
  st_summary :: summary
  visits :: nat

definition tag_dark :: "issue \<Rightarrow> issue" where
  "tag_dark i = i\<lparr>colorScheme := Some ''dark'', title := ''[Dark Mode] '' @ title i\<rparr>"

definition deviceLabel :: "color_scheme \<Rightarrow> device_profile \<Rightarrow> string" where
  "deviceLabel cs dev = (if cs = Dark then name dev @ '' (Dark)'' else name dev)"

text \<open>The \<^verbatim>\<open>catch\<close> block.\<close>

definition record_error ::
  "color_scheme \<Rightarrow> string \<Rightarrow> device_profile \<Rightarrow> string \<Rightarrow> loop_state \<Rightarrow> loop_state" where
  "record_error cs browserType dev msg st =
     st\<lparr>st_checks := st_checks st @
           [\<lparr>cr_device = deviceLabel cs dev,
             cr_device_id = dev_id dev,
             cr_browser = browserType,
             cr_colorScheme = cs,
             cr_screenshot = None,
             cr_status = St_error,
             cr_issues_count = None,
             cr_error = Some msg\<rparr>],
        st_summary := (st_summary st)\<lparr>failed := failed (st_summary st) + 1\<rparr>\<rparr>"

text \<open>
  The end of the \<^verbatim>\<open>try\<close> block. The spread \<^verbatim>\<open>...checkResults\<close> comes after
  \<^verbatim>\<open>status\<close> in the object literal, so the record carries the status of
  \<^verbatim>\<open>runChecks\<close>; the counters use the local variable \<^verbatim>\<open>status\<close>.
\<close>

definition record_success ::
  "color_scheme \<Rightarrow> string \<Rightarrow> device_profile \<Rightarrow> string \<Rightarrow> issue list \<Rightarrow> loop_state \<Rightarrow>
   loop_state" where
  "record_success cs browserType dev now detectedIssues st =
     (let checkResults_status = runChecks_status (dev_viewport dev) dev;
          hasCritical = list_ex (\<lambda>i. severity i = Critical) detectedIssues;
          hasWarnings = list_ex (\<lambda>i. severity i = Warning) detectedIssues;
          status = (if hasCritical then St_failed
                    else if hasWarnings then St_warning else St_passed);
          schemeSuffix = (if cs = Dark then ''_dark'' else '''');
          checkId = dev_id dev @ ''_'' @ browserType @ schemeSuffix;
          screenshotPath = ''screenshots/'' @ checkId @ ''_'' @ now @ ''.png'';
          s = st_summary st;
          s1 = s\<lparr>total := total s + 1\<rparr>;
          s2 = (if status = St_passed then s1\<lparr>passed := passed s1 + 1\<rparr>
                else if status = St_failed then s1\<lparr>failed := failed s1 + 1\<rparr>
                else s1\<lparr>warnings := warnings s1 + 1\<rparr>)
      in st\<lparr>st_checks := st_checks st @
              [\<lparr>cr_device = deviceLabel cs dev,
                cr_device_id = dev_id dev,
                cr_browser = browserType,
                cr_colorScheme = cs,
                cr_screenshot = Some screenshotPath,
                cr_status = checkResults_status,
                cr_issues_count = Some (length detectedIssues),
                cr_error = None\<rparr>],
            st_summary := s2\<rparr>)"

text \<open>The body of the innermost loop: \<^verbatim>\<open>try\<close>, \<^verbatim>\<open>catch\<close>, \<^verbatim>\<open>finally\<close>.\<close>

definition process_tuple ::
  "world \<Rightarrow> color_scheme \<Rightarrow> string \<Rightarrow> device_profile \<Rightarrow> loop_state \<Rightarrow> loop_state" where
  "process_tuple w cs browserType dev st =
     (let st' = st\<lparr>visits := visits st + 1\<rparr> in
      case w (visits st) of
        Capture_fails msg \<Rightarrow> record_error cs browserType dev msg st'
      | Analysed pg now late \<Rightarrow>
          let detected = detectIssues pg dev;
              detectedIssues = (if cs = Dark then map tag_dark detected else detected);
              st'' = st'\<lparr>allIssues := allIssues st' @ detectedIssues\<rparr>
          in (case late of
                Some msg \<Rightarrow> record_error cs browserType dev msg st''
              | None \<Rightarrow> record_success cs browserType dev now detectedIssues st''))"

definition initial_state :: loop_state where
  "initial_state =
     \<lparr>allIssues = [], st_checks = [],
      st_summary = \<lparr>total = 0, passed = 0, failed = 0, warnings = 0,
                    sum_blocks_release = False\<rparr>,
      visits = 0\<rparr>"

text \<open>The three nested \<^verbatim>\<open>for\<close> loops.\<close>

definition run_matrix ::
  "world \<Rightarrow> color_scheme list \<Rightarrow> string list \<Rightarrow> device_profile list \<Rightarrow> loop_state" where
  "run_matrix w colorSchemes brs devs =
     foldl (\<lambda>st cs.
       foldl (\<lambda>st browserType.
         foldl (\<lambda>st dev. process_tuple w cs browserType dev st) st devs)
         st brs)
       initial_state colorSchemes"

definition checkPage ::
  "devices_json \<Rightarrow> world \<Rightarrow> string \<Rightarrow> string \<Rightarrow> bool \<Rightarrow> error + check_result" where
  "checkPage cfg w url profile checkDarkMode =
     (case getDevicesForProfile cfg profile of
        Inl e \<Rightarrow> Inl e
      | Inr (devs, brs) \<Rightarrow>
          let colorSchemes = (if checkDarkMode then [Light, Dark] else [Light]);
              st = run_matrix w colorSchemes brs devs;
              deduplicated = deduplicateIssues (allIssues st)
          in Inr \<lparr>res_url = url,
                  res_profile = profile,
                  checks = st_checks st,
                  issues = deduplicated,
                  res_summary = (st_summary st)
                    \<lparr>sum_blocks_release := list_ex blocks_release deduplicated\<rparr>,
                  res_action_summary = generateSummaryForAgent deduplicated\<rparr>)"

subsection \<open>Vocabulary of the statements\<close>

text \<open>The tuples of the matrix in the order the loops visit them.\<close>

definition matrix ::
  "color_scheme list \<Rightarrow> string list \<Rightarrow> device_profile list \<Rightarrow>
   (color_scheme \<times> string \<times> device_profile) list" where
  "matrix colorSchemes brs devs =
     concat (map (\<lambda>cs. concat (map (\<lambda>b. map (\<lambda>d. (cs, b, d)) devs) brs)) colorSchemes)"

text \<open>The message of the exception a visit ends with, if it ends with one.\<close>

fun failure_of :: "tuple_run \<Rightarrow> string option" where
  "failure_of (Capture_fails msg) = Some msg"
| "failure_of (Analysed pg now late) = late"

text \<open>The status of the local variable \<^verbatim>\<open>status\<close> for the issues of one tuple.\<close>

definition tuple_status :: "issue list \<Rightarrow> check_status" where
  "tuple_status detected =
     (if list_ex (\<lambda>i. severity i = Critical) detected then St_failed
      else if list_ex (\<lambda>i. severity i = Warning) detected then St_warning
      else St_passed)"

text \<open>The three loops as one pass over the tuples of the matrix.\<close>

definition run_tuples ::
  "world \<Rightarrow> (color_scheme \<times> string \<times> device_profile) list \<Rightarrow> loop_state" where
  "run_tuples w ts = foldl (\<lambda>st (cs, b, d). process_tuple w cs b d st) initial_state ts"

text \<open>The tuples with the number of the visit each is processed in.\<close>

definition numbered :: "'a list \<Rightarrow> (nat \<times> 'a) list" where
  "numbered ts = zip [0..<length ts] ts"

text \<open>
  A check record belongs to the n-th visit, of the tuple \<open>t\<close>: it names the tuple, and it
  has the status \<^verbatim>\<open>'error'\<close> with the message exactly when the visit threw.
\<close>

definition record_matches ::
  "world \<Rightarrow> nat \<times> color_scheme \<times> string \<times> device_profile \<Rightarrow> check_record \<Rightarrow> bool" where
  "record_matches w nt c =
     (case nt of (n, cs, b, d) \<Rightarrow>
        cr_colorScheme c = cs \<and> cr_browser c = b \<and> cr_device_id c = dev_id d \<and>
        cr_device c = deviceLabel cs d \<and>
        (case failure_of (w n) of
           Some msg \<Rightarrow> cr_status c = St_error \<and> cr_error c = Some msg
         | None \<Rightarrow> cr_status c \<noteq> St_error \<and> cr_error c = None))"

text \<open>
  How the n-th visit, of the tuple \<open>t\<close>, ends: with an exception, or with the local
  \<^verbatim>\<open>status\<close> computed from the detected issues.
\<close>

definition visit_status ::
  "world \<Rightarrow> nat \<times> color_scheme \<times> string \<times> device_profile \<Rightarrow> check_status" where
  "visit_status w nt =
     (case nt of (n, cs, b, d) \<Rightarrow>
        (case w n of
           Capture_fails msg \<Rightarrow> St_error
         | Analysed pg now late \<Rightarrow>
             (case late of
                Some msg \<Rightarrow> St_error
              | None \<Rightarrow> tuple_status (detectIssues pg d))))"

definition count_status :: "check_status \<Rightarrow> check_status list \<Rightarrow> nat" where
  "count_status s sts = length (filter (\<lambda>x. x = s) sts)"

section \<open>Concrete inputs\<close>

definition iphone_config :: device_config where
  "iphone_config =
     \<lparr>cfg_name = ''iPhone 14'', cfg_viewport = \<lparr>vp_width = 390, vp_height = 844\<rparr>,
      cfg_is_mobile = True, cfg_has_touch = True\<rparr>"

definition iphone :: device_profile where
  "iphone = with_id ''iphone_14'' iphone_config"

definition desktop_config :: device_config where
  "desktop_config =
     \<lparr>cfg_name = ''Desktop HD'', cfg_viewport = \<lparr>vp_width = 1920, vp_height = 1080\<rparr>,
      cfg_is_mobile = False, cfg_has_touch = False\<rparr>"

definition desktop :: device_profile where
  "desktop = with_id ''desktop_hd'' desktop_config"

text \<open>
  A \<^verbatim>\<open>devices.json\<close> whose profile \<^verbatim>\<open>quick\<close> lists the id \<^verbatim>\<open>pixel_9\<close>,
  which no category has.
\<close>

definition example_config :: devices_json where
  "example_config =
     \<lparr>test_profiles =
        [(''quick'', \<lparr>devices = Device_ids [''iphone_14'', ''pixel_9''],
                      browsers = [''chromium'']\<rparr>),
         (''full'', \<lparr>devices = All_devices, browsers = [''chromium'', ''firefox'']\<rparr>)],
      device_profiles =
        [(''mobile'', [(''iphone_14'', iphone_config)]),
         (''desktop'', [(''desktop_hd'', desktop_config)])]\<rparr>"

text \<open>A page on which every script runs and finds nothing.\<close>

definition clean_page :: page where
  "clean_page =
     \<lparr>hasHorizontalScroll = Inr False, overflowingElement = Inr None,
      overflowingElements = Inr [], smallTargets = Inr [], textElements = Inr [],
      smallTextElements = Inr [], imagesWithoutAlt = Inr []\<rparr>"

text \<open>A page with two images that have no \<^verbatim>\<open>alt\<close> attribute.\<close>

definition two_images_page :: page where
  "two_images_page =
     clean_page\<lparr>imagesWithoutAlt :=
       Inr [\<lparr>i_src = ''a.png'', i_selector = ''#logo''\<rparr>,
            \<lparr>i_src = ''b.png'', i_selector = ''#hero''\<rparr>]\<rparr>"

text \<open>The first visit finds the two images; every later navigation times out.\<close>

definition example_world :: world where
  "example_world n =
     (if n = 0 then Analysed two_images_page ''1700000000000'' None
      else Capture_fails ''page.goto: Timeout 30000ms exceeded'')"

text \<open>
  The contrast ratio in the words of the specification: the relative luminance
  \<open>L = 0.2126 R + 0.7152 G + 0.0722 B\<close> of the gamma-corrected channels, and
  \<open>(Lmax + 0.05) / (Lmin + 0.05)\<close>.
\<close>

definition wcag_luminance :: "rgb \<Rightarrow> real" where
  "wcag_luminance c =
     0.2126 * channel (red c) + 0.7152 * channel (green c) + 0.0722 * channel (blue c)"

definition wcag_ratio :: "rgb \<Rightarrow> rgb \<Rightarrow> real" where
  "wcag_ratio fg bg =
     (max (wcag_luminance fg) (wcag_luminance bg) + 0.05) /
     (min (wcag_luminance fg) (wcag_luminance bg) + 0.05)"

text \<open>Black text with the given element id on the background \<^verbatim>\<open>rgb(10, 10, 10)\<close>.\<close>

definition dim_text :: "string \<Rightarrow> text_element" where
  "dim_text eid =
     \<lparr>te_id = eid, te_className = '''', te_tag = ''p'', te_textContent = ''text'',
      te_color = Some \<lparr>red = 0, green = 0, blue = 0\<rparr>,
      te_bgColor = Some \<lparr>red = 10, green = 10, blue = 10\<rparr>\<rparr>"

text \<open>Text of the colour of its background, and text on a transparent background.\<close>

definition same_colour_text :: text_element where
  "same_colour_text =
     \<lparr>te_id = ''same'', te_className = '''', te_tag = ''p'', te_textContent = ''text'',
      te_color = Some \<lparr>red = 5, green = 5, blue = 5\<rparr>,
      te_bgColor = Some \<lparr>red = 5, green = 5, blue = 5\<rparr>\<rparr>"

definition transparent_text :: text_element where
  "transparent_text =
     \<lparr>te_id = ''clear'', te_className = '''', te_tag = ''p'', te_textContent = ''text'',
      te_color = Some \<lparr>red = 10, green = 10, blue = 10\<rparr>,
      te_bgColor = Some \<lparr>red = 0, green = 0, blue = 0\<rparr>\<rparr>"

definition contrast_page :: page where
  "contrast_page =
     clean_page\<lparr>textElements :=
       Inr [same_colour_text, dim_text ''t1'', transparent_text, dim_text ''t2'',
            dim_text ''t3'', dim_text ''t4'', dim_text ''t5'', dim_text ''t6'']\<rparr>"

text \<open>
  The issue list of a contrast finding seen on three visits, two of them on the same
  device, with a font size issue of the same element in between.
\<close>

definition footer_finding :: text_finding where
  "footer_finding = \<lparr>t_tag = ''p'', t_text = ''Footer'', t_selector = ''#footer''\<rparr>"

definition repeated_issues :: "issue list" where
  "repeated_issues =
     [contrast_issue iphone footer_finding,
      font_issue iphone footer_finding,
      contrast_issue desktop footer_finding,
      contrast_issue iphone footer_finding]"

text \<open>
  Two files of different sizes and a stand-in for \<^verbatim>\<open>pixelmatch\<close> that counts the
  positions at which the buffers differ.
\<close>

definition small_png :: png where
  "small_png = \<lparr>png_width = 1, png_height = 1, png_data = [255, 0, 0, 255]\<rparr>"

definition wide_png :: png where
  "wide_png = \<lparr>png_width = 2, png_height = 1, png_data = [255, 0, 0, 255, 0, 0, 0, 255]\<rparr>"

definition example_files :: "string \<Rightarrow> png option" where
  "example_files path =
     (if path = ''baseline/home.png'' then Some small_png
      else if path = ''current/home.png'' then Some small_png
      else if path = ''current/wide.png'' then Some wide_png
      else None)"

definition count_differences :: "nat list \<Rightarrow> nat list \<Rightarrow> nat \<Rightarrow> nat \<Rightarrow> nat \<times> nat list" where
  "count_differences a b w h =
     (length (filter (\<lambda>(x, y). x \<noteq> y) (zip a b)), map (\<lambda>(x, y). if x = y then 0 else 255) (zip a b))"

definition save_ok :: "png \<Rightarrow> string \<Rightarrow> string option" where
  "save_ok img path = None"

text \<open>
  The name of the check of an issue, for the three checks that put the selector into the
  id; their issues are told apart by the WCAG criterion they carry.
\<close>

definition selector_check :: "issue \<Rightarrow> string option" where
  "selector_check i =
     (if wcag i = Some ''2.5.5'' then Some ''touch-target''
      else if wcag i = Some ''1.4.3'' then Some ''contrast''
      else if wcag i = Some ''1.4.4'' then Some ''font-size''
      else None)"

section \<open>Properties of deduplication\<close>

lemma first_occurrences_Nil: "first_occurrences [] = []"
  by (simp add: first_occurrences_def)

lemma first_occurrences_snoc:
  "first_occurrences (xs @ [x]) =
     (if x \<in> set (first_occurrences xs) then first_occurrences xs
      else first_occurrences xs @ [x])"
  by (simp add: first_occurrences_def)

lemma set_first_occurrences: "set (first_occurrences xs) = set xs"
  by (induction xs rule: rev_induct)
     (auto simp: first_occurrences_Nil first_occurrences_snoc)

lemma distinct_first_occurrences: "distinct (first_occurrences xs)"
  by (induction xs rule: rev_induct)
     (auto simp: first_occurrences_Nil first_occurrences_snoc)

lemma first_occurrences_distinct_id: "distinct xs \<Longrightarrow> first_occurrences xs = xs"
  by (induction xs rule: rev_induct)
     (auto simp: first_occurrences_Nil first_occurrences_snoc set_first_occurrences)

lemma length_first_occurrences: "length (first_occurrences xs) = card (set xs)"
  using distinct_card [OF distinct_first_occurrences, of xs]
  by (simp add: set_first_occurrences)

lemma map_of_tabulate:
  "map_of (map (\<lambda>k. (k, F k)) ks) k = (if k \<in> set ks then Some (F k) else None)"
  by (induction ks) auto

lemma map_mutate_tabulate:
  "distinct ks \<Longrightarrow>
   map_mutate k g (map (\<lambda>k'. (k', F k')) ks) =
   map (\<lambda>k'. (k', if k' = k then g (F k') else F k')) ks"
  by (induction ks) auto

lemma key_group_snoc:
  "key_group k (xs @ [x]) = (if dedup_key x = k then key_group k xs @ [x] else key_group k xs)"
  by (simp add: key_group_def)

lemma key_group_empty_iff: "key_group k xs = [] \<longleftrightarrow> k \<notin> set (map dedup_key xs)"
  by (auto simp: key_group_def filter_empty_conv)

lemma canonical_single: "canonical [x] = x\<lparr>affected_devices := Some [device x]\<rparr>"
  by (simp add: canonical_def first_occurrences_def)

lemma canonical_snoc:
  "g \<noteq> [] \<Longrightarrow> canonical (g @ [x]) = add_device (device x) (canonical g)"
  by (simp add: canonical_def add_device_def push_if_absent_def first_occurrences_snoc)

lemma dedup_closed_form:
  "foldl dedup_step [] xs =
   map (\<lambda>k. (k, canonical (key_group k xs))) (first_occurrences (map dedup_key xs))"
proof (induction xs rule: rev_induct)
  case Nil
  show ?case by (simp add: first_occurrences_Nil)
next
  case (snoc x xs)
  let ?ks = "first_occurrences (map dedup_key xs)"
  let ?k = "dedup_key x"
  have step: "foldl dedup_step [] (xs @ [x]) =
      dedup_step (map (\<lambda>k. (k, canonical (key_group k xs))) ?ks) x"
    using snoc.IH by simp
  show ?case
  proof (cases "?k \<in> set (map dedup_key xs)")
    case True
    then have mem: "?k \<in> set ?ks" by (simp add: set_first_occurrences)
    have ne: "key_group ?k xs \<noteq> []" using True by (simp add: key_group_empty_iff)
    have "foldl dedup_step [] (xs @ [x]) =
        map (\<lambda>k'. (k', if k' = ?k then add_device (device x) (canonical (key_group k' xs))
                         else canonical (key_group k' xs))) ?ks"
      unfolding step dedup_step_def Let_def
      using mem by (simp add: map_of_tabulate map_mutate_tabulate distinct_first_occurrences)
    also have "\<dots> = map (\<lambda>k'. (k', canonical (key_group k' (xs @ [x])))) ?ks"
      using ne by (auto simp: key_group_snoc canonical_snoc)
    also have "?ks = first_occurrences (map dedup_key (xs @ [x]))"
      using mem by (simp add: first_occurrences_snoc)
    finally show ?thesis .
  next
    case False
    then have nmem: "?k \<notin> set ?ks" by (simp add: set_first_occurrences)
    have emp: "key_group ?k xs = []" using False by (simp add: key_group_empty_iff)
    have "foldl dedup_step [] (xs @ [x]) =
        map (\<lambda>k. (k, canonical (key_group k xs))) ?ks @
        [(?k, x\<lparr>affected_devices := Some [device x]\<rparr>)]"
      unfolding step dedup_step_def Let_def map_set_new_def
      using nmem by (simp add: map_of_tabulate)
    also have "map (\<lambda>k. (k, canonical (key_group k xs))) ?ks =
        map (\<lambda>k. (k, canonical (key_group k (xs @ [x])))) ?ks"
      using nmem by (auto simp: key_group_snoc)
    also have "x\<lparr>affected_devices := Some [device x]\<rparr> = canonical (key_group ?k (xs @ [x]))"
      using emp by (simp add: key_group_snoc canonical_single)
    finally show ?thesis
      using nmem by (simp add: first_occurrences_snoc)
  qed
qed

lemma type_name_inj: "type_name a @ CHR ''-'' # x = type_name b @ CHR ''-'' # y \<Longrightarrow> a = b \<and> x = y"
  by (cases a; cases b) simp_all

lemma dedup_key_eq_iff:
  "dedup_key a = dedup_key b \<longleftrightarrow>
   itype a = itype b \<and> selector_or_title a = selector_or_title b"
  by (auto simp: dedup_key_def dest: type_name_inj)

lemma dedup_key_affected [simp]: "dedup_key (i\<lparr>affected_devices := v\<rparr>) = dedup_key i"
  by (simp add: dedup_key_def selector_or_title_def split: option.splits)

lemma hd_filter_sat: "filter P xs \<noteq> [] \<Longrightarrow> P (hd (filter P xs))"
  by (induction xs) auto

lemma dedup_key_canonical:
  "k \<in> set (map dedup_key xs) \<Longrightarrow> dedup_key (canonical (key_group k xs)) = k"
proof -
  assume "k \<in> set (map dedup_key xs)"
  then have "key_group k xs \<noteq> []" by (simp add: key_group_empty_iff)
  then have "dedup_key (hd (key_group k xs)) = k"
    unfolding key_group_def by (rule hd_filter_sat)
  then show ?thesis by (simp add: canonical_def)
qed

lemma deduplicateIssues_closed_form:
  "deduplicateIssues xs =
   map (\<lambda>k. canonical (key_group k xs)) (first_occurrences (map dedup_key xs))"
  by (simp add: deduplicateIssues_def dedup_closed_form comp_def)

lemma filter_eq_distinct: "distinct ks \<Longrightarrow> k \<in> set ks \<Longrightarrow> filter (\<lambda>k'. k' = k) ks = [k]"
  by (induction ks) (auto simp: filter_empty_conv)

lemma find_Some_hd_filter: "find P xs = Some f \<Longrightarrow> filter P xs \<noteq> [] \<and> hd (filter P xs) = f"
  by (induction xs) (auto split: if_splits)

lemma find_Some_mem: "find P xs = Some f \<Longrightarrow> f \<in> set xs \<and> P f"
  by (induction xs) (auto split: if_splits)

lemma filter_key_dedup:
  assumes "k \<in> set (map dedup_key xs)"
  shows "filter (\<lambda>out. dedup_key out = k) (deduplicateIssues xs) = [canonical (key_group k xs)]"
proof -
  let ?ks = "first_occurrences (map dedup_key xs)"
  have "filter (\<lambda>out. dedup_key out = k) (deduplicateIssues xs) =
        map (\<lambda>k. canonical (key_group k xs)) (filter (\<lambda>k'. k' = k) ?ks)"
    unfolding deduplicateIssues_closed_form filter_map comp_def
    by (rule arg_cong [where f = "map _"], rule filter_cong)
       (auto simp: set_first_occurrences dedup_key_canonical)
  also have "filter (\<lambda>k'. k' = k) ?ks = [k]"
    using assms by (intro filter_eq_distinct) (simp_all add: distinct_first_occurrences set_first_occurrences)
  finally show ?thesis by simp
qed

text \<open>
  Claim C1. \<^verbatim>\<open>deduplicateIssues\<close> groups the issues of any input list by type and
  selector (the title where there is no selector). When the list has an issue with the
  type \<open>t\<close> and the selector or title \<open>s\<close>, and \<open>f\<close> is the first such issue, the output
  holds exactly one issue with that key: it is \<open>f\<close> with \<^verbatim>\<open>affected_devices\<close> set to
  the devices of the group in the order of their first occurrence. That list has no
  duplicates, it has as many entries as the group has distinct devices, and so as many as
  the group has issues when these come from distinct devices.
\<close>

theorem deduplicateIssues_one_per_key:
  assumes "find (\<lambda>j. itype j = t \<and> selector_or_title j = s) xs = Some f"
  shows "filter (\<lambda>out. itype out = t \<and> selector_or_title out = s) (deduplicateIssues xs) =
           [f\<lparr>affected_devices := Some (first_occurrences (map device
                (filter (\<lambda>j. itype j = t \<and> selector_or_title j = s) xs)))\<rparr>]
       \<and> distinct (first_occurrences (map device
                (filter (\<lambda>j. itype j = t \<and> selector_or_title j = s) xs)))
       \<and> length (first_occurrences (map device
                (filter (\<lambda>j. itype j = t \<and> selector_or_title j = s) xs))) =
           card (device ` {j \<in> set xs. itype j = t \<and> selector_or_title j = s})
       \<and> (distinct (map device (filter (\<lambda>j. itype j = t \<and> selector_or_title j = s) xs)) \<longrightarrow>
            length (first_occurrences (map device
                (filter (\<lambda>j. itype j = t \<and> selector_or_title j = s) xs))) =
            length (filter (\<lambda>j. itype j = t \<and> selector_or_title j = s) xs))"
proof -
  let ?same = "\<lambda>j. itype j = t \<and> selector_or_title j = s"
  let ?grp = "filter ?same xs"
  from assms have f: "f \<in> set xs" "itype f = t" "selector_or_title f = s"
    using find_Some_mem [of ?same xs f] by auto
  have same_key: "?same = (\<lambda>j. dedup_key j = dedup_key f)"
    using f by (auto simp: dedup_key_eq_iff fun_eq_iff)
  have grp: "key_group (dedup_key f) xs = ?grp"
    by (simp add: key_group_def same_key)
  have hd: "hd ?grp = f" using find_Some_hd_filter [OF assms] by simp
  have "filter ?same (deduplicateIssues xs) = [canonical ?grp]"
    using filter_key_dedup [of "dedup_key f" xs] f(1) grp by (simp add: same_key)
  then have one: "filter ?same (deduplicateIssues xs) =
      [f\<lparr>affected_devices := Some (first_occurrences (map device ?grp))\<rparr>]"
    by (simp add: canonical_def hd)
  have card: "length (first_occurrences (map device ?grp)) =
      card (device ` {j \<in> set xs. ?same j})"
    by (simp add: length_first_occurrences)
  have dist: "distinct (map device ?grp) \<longrightarrow>
      length (first_occurrences (map device ?grp)) = length ?grp"
    by (simp add: first_occurrences_distinct_id)
  show ?thesis using one card dist distinct_first_occurrences by blast
qed

lemma first_occurrences_rev_remdups: "first_occurrences xs = rev (remdups (rev xs))"
  by (induction xs rule: rev_induct)
     (auto simp: first_occurrences_Nil first_occurrences_snoc)

lemma find_key_group: "find (\<lambda>j. dedup_key j = k) xs = (case key_group k xs of [] \<Rightarrow> None | f # _ \<Rightarrow> Some f)"
  by (induction xs) (auto simp: key_group_def)

text \<open>
  Claim C10. The issues of the output of \<^verbatim>\<open>deduplicateIssues\<close> stand in the order in
  which their keys first occur in the input, and the \<^verbatim>\<open>device\<close> of each is the device
  of the first input issue with its key.
\<close>

theorem deduplicateIssues_order:
  "map dedup_key (deduplicateIssues xs) = first_occurrences (map dedup_key xs) \<and>
   map (\<lambda>out. Some (device out)) (deduplicateIssues xs) =
     map (\<lambda>k. map_option device (find (\<lambda>j. dedup_key j = k) xs))
         (first_occurrences (map dedup_key xs))"
proof
  show "map dedup_key (deduplicateIssues xs) = first_occurrences (map dedup_key xs)"
    unfolding deduplicateIssues_closed_form map_map comp_def
    by (rule map_idI) (simp add: set_first_occurrences dedup_key_canonical)
next
  have "\<And>k. k \<in> set (map dedup_key xs) \<Longrightarrow>
      Some (device (canonical (key_group k xs))) =
      map_option device (find (\<lambda>j. dedup_key j = k) xs)"
  proof -
    fix k assume "k \<in> set (map dedup_key xs)"
    then have "key_group k xs \<noteq> []" by (simp add: key_group_empty_iff)
    then show "Some (device (canonical (key_group k xs))) =
      map_option device (find (\<lambda>j. dedup_key j = k) xs)"
      by (cases "key_group k xs") (simp_all add: find_key_group canonical_def)
  qed
  then show "map (\<lambda>out. Some (device out)) (deduplicateIssues xs) =
     map (\<lambda>k. map_option device (find (\<lambda>j. dedup_key j = k) xs))
         (first_occurrences (map dedup_key xs))"
    unfolding deduplicateIssues_closed_form
    by (simp add: comp_def set_first_occurrences)
qed

section \<open>Properties of detection\<close>

lemma set_insert_issue: "set (insert_issue x ys) = insert x (set ys)"
  by (induction ys) auto

lemma set_prioritizeIssues: "set (prioritizeIssues xs) = set xs"
  by (induction xs) (simp_all add: prioritizeIssues_def set_insert_issue)

lemma length_insert_issue: "length (insert_issue x ys) = Suc (length ys)"
  by (induction ys) auto

lemma length_prioritizeIssues: "length (prioritizeIssues xs) = length xs"
  by (induction xs) (simp_all add: prioritizeIssues_def length_insert_issue)

text \<open>Every issue of a detection comes from one of the six constructors.\<close>

lemma detectIssues_cases:
  assumes "i \<in> set (detectIssues pg dev)"
  shows "checkHorizontalScroll pg dev = Some i
       \<or> (\<exists>el. i = overflow_issue dev el)
       \<or> (\<exists>el. i = touch_issue dev el)
       \<or> (\<exists>el. i = contrast_issue dev el)
       \<or> (\<exists>el. i = font_issue dev el)
       \<or> (\<exists>img. i = img_alt_issue dev img)"
  using assms
  by (auto simp: detectIssues_def set_prioritizeIssues checkOverflow_def checkTouchTargets_def
        checkContrast_def checkFontSize_def checkImageAlt_def checkOverlap_def
      split: option.splits sum.splits if_splits)

lemma checkHorizontalScroll_Some:
  "checkHorizontalScroll pg dev = Some i \<Longrightarrow>
   issue_id i = ''horizontal-scroll-'' @ dev_id dev \<and> severity i = Critical \<and> blocks_release i
   \<and> wcag i = None \<and> itype i = Layout"
  by (auto simp: checkHorizontalScroll_def split: sum.splits bool.splits)

lemma detected_blocks_iff_critical:
  assumes "i \<in> set (detectIssues pg dev)"
  shows "blocks_release i \<longleftrightarrow> severity i = Critical"
  using detectIssues_cases [OF assms] checkHorizontalScroll_Some [of pg dev i]
  by (auto simp: overflow_issue_def touch_issue_def contrast_issue_def font_issue_def
        img_alt_issue_def)

section \<open>Properties of the orchestration\<close>

lemma foldl_concat_map:
  "foldl f a (concat (map g xs)) = foldl (\<lambda>a x. foldl f a (g x)) a xs"
  by (induction xs arbitrary: a) simp_all

lemma run_matrix_flat: "run_matrix w css brs devs = run_tuples w (matrix css brs devs)"
  by (simp add: run_matrix_def run_tuples_def matrix_def foldl_concat_map foldl_map)

lemma length_matrix: "length (matrix css brs devs) = length css * length brs * length devs"
proof -
  have inner: "\<And>cs. length (concat (map (\<lambda>b. map (\<lambda>d. (cs, b, d)) devs) brs)) =
      length brs * length devs"
    by (induction brs) simp_all
  show ?thesis
    unfolding matrix_def by (induction css) (simp_all add: inner add_mult_distrib)
qed

lemma numbered_Nil: "numbered [] = []"
  by (simp add: numbered_def)

lemma numbered_snoc: "numbered (ts @ [t]) = numbered ts @ [(length ts, t)]"
  by (simp add: numbered_def)

lemma length_numbered: "length (numbered ts) = length ts"
  by (simp add: numbered_def)

lemma run_tuples_Nil: "run_tuples w [] = initial_state"
  by (simp add: run_tuples_def)

lemma run_tuples_snoc:
  "run_tuples w (ts @ [(cs, b, d)]) = process_tuple w cs b d (run_tuples w ts)"
  by (simp add: run_tuples_def)

lemma visits_process_tuple: "visits (process_tuple w cs b d st) = visits st + 1"
  by (simp add: process_tuple_def record_error_def record_success_def Let_def
      split: tuple_run.splits option.splits)

lemma visits_run_tuples: "visits (run_tuples w ts) = length ts"
proof (induction ts rule: rev_induct)
  case Nil
  show ?case by (simp add: run_tuples_Nil initial_state_def)
next
  case (snoc t ts)
  obtain cs b d where t: "t = (cs, b, d)" by (cases t)
  show ?case using snoc by (simp add: t run_tuples_snoc visits_process_tuple)
qed

lemma runChecks_status_not_error: "runChecks_status v dev \<noteq> St_error"
  by (simp add: runChecks_status_def)

lemma checks_process_tuple:
  "\<exists>c. st_checks (process_tuple w cs b d st) = st_checks st @ [c] \<and>
       record_matches w (visits st, cs, b, d) c"
  by (cases "w (visits st)")
     (auto simp: process_tuple_def record_error_def record_success_def Let_def
        record_matches_def runChecks_status_not_error split: option.splits)

lemma checks_run_tuples:
  "list_all2 (record_matches w) (numbered ts) (st_checks (run_tuples w ts))"
proof (induction ts rule: rev_induct)
  case Nil
  show ?case by (simp add: run_tuples_Nil initial_state_def numbered_Nil)
next
  case (snoc t ts)
  obtain cs b d where t: "t = (cs, b, d)" by (cases t)
  obtain c where c: "st_checks (run_tuples w (ts @ [t])) = st_checks (run_tuples w ts) @ [c]"
      "record_matches w (length ts, cs, b, d) c"
    using checks_process_tuple [of w cs b d "run_tuples w ts"]
    by (auto simp: t run_tuples_snoc visits_run_tuples)
  show ?case
    unfolding numbered_snoc c(1)
    by (rule list_all2_appendI [OF snoc.IH]) (simp add: t c(2))
qed

lemma severity_tag_dark: "severity (tag_dark i) = severity i"
  by (simp add: tag_dark_def)

lemma tuple_status_tag_dark: "tuple_status (map tag_dark xs) = tuple_status xs"
  by (simp add: tuple_status_def list_ex_iff severity_tag_dark)

lemma summary_process_tuple:
  fixes w cs b d st
  defines "s \<equiv> st_summary st"
  defines "s' \<equiv> st_summary (process_tuple w cs b d st)"
  defines "v \<equiv> visit_status w (visits st, cs, b, d)"
  shows "total s' = total s + (if v = St_error then 0 else 1)"
    and "passed s' = passed s + (if v = St_passed then 1 else 0)"
    and "failed s' = failed s + (if v = St_failed \<or> v = St_error then 1 else 0)"
    and "warnings s' = warnings s + (if v = St_warning then 1 else 0)"
proof -
  have ts: "\<And>xs. tuple_status xs \<noteq> St_error" by (simp add: tuple_status_def)
  have unfold: "\<And>xs. (if list_ex (\<lambda>i. severity i = Critical) xs then St_failed
      else if list_ex (\<lambda>i. severity i = Warning) xs then St_warning else St_passed) = tuple_status xs"
    by (simp add: tuple_status_def)
  show "total s' = total s + (if v = St_error then 0 else 1)"
    unfolding s_def s'_def v_def
    by (cases "w (visits st)")
       (auto simp: process_tuple_def record_error_def record_success_def Let_def
          visit_status_def ts split: option.splits)
  show "passed s' = passed s + (if v = St_passed then 1 else 0)"
    unfolding s_def s'_def v_def
    by (cases "w (visits st)")
       (auto simp: process_tuple_def record_error_def record_success_def Let_def
          visit_status_def unfold tuple_status_tag_dark split: option.splits)
  show "failed s' = failed s + (if v = St_failed \<or> v = St_error then 1 else 0)"
    unfolding s_def s'_def v_def
    by (cases "w (visits st)")
       (auto simp: process_tuple_def record_error_def record_success_def Let_def
          visit_status_def unfold tuple_status_tag_dark ts split: option.splits)
  have warn: "\<And>xs. (tuple_status xs = St_warning) =
      (tuple_status xs \<noteq> St_failed \<and> tuple_status xs \<noteq> St_passed)"
    by (simp add: tuple_status_def)
  show "warnings s' = warnings s + (if v = St_warning then 1 else 0)"
    unfolding s_def s'_def v_def
    by (cases "w (visits st)")
       (auto simp: process_tuple_def record_error_def record_success_def Let_def
          visit_status_def unfold tuple_status_tag_dark warn split: option.splits)
qed

lemma count_status_snoc:
  "count_status s (sts @ [x]) = count_status s sts + (if x = s then 1 else 0)"
  by (simp add: count_status_def)

lemma summary_run_tuples:
  fixes w ts
  defines "s \<equiv> st_summary (run_tuples w ts)"
  defines "sts \<equiv> map (visit_status w) (numbered ts)"
  shows "total s + count_status St_error sts = length ts
       \<and> passed s = count_status St_passed sts
       \<and> failed s = count_status St_failed sts + count_status St_error sts
       \<and> warnings s = count_status St_warning sts"
  unfolding s_def sts_def
proof (induction ts rule: rev_induct)
  case Nil
  show ?case
    by (simp add: run_tuples_Nil initial_state_def numbered_Nil count_status_def)
next
  case (snoc t ts)
  obtain cs b d where t: "t = (cs, b, d)" by (cases t)
  note step = summary_process_tuple [of w cs b d "run_tuples w ts", unfolded visits_run_tuples]
  show ?case
    using snoc
    by (simp add: t run_tuples_snoc numbered_snoc count_status_snoc step)
qed

lemma visit_status_error_iff:
  "visit_status w (n, cs, b, d) = St_error \<longleftrightarrow> failure_of (w n) \<noteq> None"
  by (cases "w n") (auto simp: visit_status_def tuple_status_def split: option.splits)

lemma record_matches_error_iff:
  "record_matches w nt c \<Longrightarrow> cr_status c = St_error \<longleftrightarrow> visit_status w nt = St_error"
  by (cases nt) (auto simp: record_matches_def visit_status_error_iff split: option.splits)

lemma error_records_count:
  "list_all2 (record_matches w) nts cs \<Longrightarrow>
   length (filter (\<lambda>c. cr_status c = St_error) cs) =
   count_status St_error (map (visit_status w) nts)"
  by (induction rule: list_all2_induct)
     (auto simp: count_status_def record_matches_error_iff)

lemma blocks_tag_dark: "blocks_release (tag_dark i) = blocks_release i"
  by (simp add: tag_dark_def)

lemma allIssues_process_tuple:
  assumes "\<forall>i \<in> set (allIssues st). blocks_release i = (severity i = Critical)"
  shows "\<forall>i \<in> set (allIssues (process_tuple w cs b d st)). blocks_release i = (severity i = Critical)"
  using assms
  by (cases "w (visits st)")
     (auto simp: process_tuple_def record_error_def record_success_def Let_def
        severity_tag_dark blocks_tag_dark detected_blocks_iff_critical split: option.splits)

lemma allIssues_run_tuples:
  "\<forall>i \<in> set (allIssues (run_tuples w ts)). blocks_release i = (severity i = Critical)"
proof (induction ts rule: rev_induct)
  case Nil
  show ?case by (simp add: run_tuples_Nil initial_state_def)
next
  case (snoc t ts)
  obtain cs b d where t: "t = (cs, b, d)" by (cases t)
  show ?case
    unfolding t run_tuples_snoc by (rule allIssues_process_tuple [OF snoc.IH])
qed

lemma hd_filter_mem: "filter P xs \<noteq> [] \<Longrightarrow> hd (filter P xs) \<in> set xs"
  by (induction xs) (auto split: if_splits)

lemma deduplicateIssues_origin:
  assumes "out \<in> set (deduplicateIssues xs)"
  shows "\<exists>i \<in> set xs. \<exists>v. out = i\<lparr>affected_devices := v\<rparr>"
proof -
  from assms obtain k where k: "k \<in> set (map dedup_key xs)" "out = canonical (key_group k xs)"
    by (auto simp: deduplicateIssues_closed_form set_first_occurrences)
  then have "key_group k xs \<noteq> []" by (simp add: key_group_empty_iff)
  then have "hd (key_group k xs) \<in> set xs"
    unfolding key_group_def by (rule hd_filter_mem)
  then show ?thesis using k(2) by (auto simp: canonical_def)
qed

lemma checkPage_Inr:
  assumes "checkPage cfg w url profile dark = Inr r"
  obtains devs brs where "getDevicesForProfile cfg profile = Inr (devs, brs)"
    and "r = \<lparr>res_url = url, res_profile = profile,
              checks = st_checks (run_tuples w (matrix (if dark then [Light, Dark] else [Light]) brs devs)),
              issues = deduplicateIssues (allIssues (run_tuples w (matrix (if dark then [Light, Dark] else [Light]) brs devs))),
              res_summary = (st_summary (run_tuples w (matrix (if dark then [Light, Dark] else [Light]) brs devs)))
                 \<lparr>sum_blocks_release := list_ex blocks_release
                    (deduplicateIssues (allIssues (run_tuples w (matrix (if dark then [Light, Dark] else [Light]) brs devs))))\<rparr>,
              res_action_summary = generateSummaryForAgent
                 (deduplicateIssues (allIssues (run_tuples w (matrix (if dark then [Light, Dark] else [Light]) brs devs))))\<rparr>"
  using assms
  by (auto simp: checkPage_def Let_def run_matrix_flat split: sum.splits prod.splits)

text \<open>
  Claim C2. In every result of \<^verbatim>\<open>checkPage\<close>, \<^verbatim>\<open>summary.blocks_release\<close> is true
  exactly when some issue of the deduplicated list has \<^verbatim>\<open>blocks_release\<close>; so one
  such issue makes it true, and it is false when the list has no critical issue, whatever
  the warnings are.
\<close>

theorem checkPage_blocks_release:
  assumes "checkPage cfg w url profile dark = Inr r"
  shows "sum_blocks_release (res_summary r) = list_ex blocks_release (issues r)
       \<and> (list_ex blocks_release (issues r) \<longrightarrow> sum_blocks_release (res_summary r))
       \<and> (filter (\<lambda>i. severity i = Critical) (issues r) = [] \<longrightarrow>
            \<not> sum_blocks_release (res_summary r))"
proof -
  from assms obtain devs brs where
    r: "r = \<lparr>res_url = url, res_profile = profile,
              checks = st_checks (run_tuples w (matrix (if dark then [Light, Dark] else [Light]) brs devs)),
              issues = deduplicateIssues (allIssues (run_tuples w (matrix (if dark then [Light, Dark] else [Light]) brs devs))),
              res_summary = (st_summary (run_tuples w (matrix (if dark then [Light, Dark] else [Light]) brs devs)))
                 \<lparr>sum_blocks_release := list_ex blocks_release
                    (deduplicateIssues (allIssues (run_tuples w (matrix (if dark then [Light, Dark] else [Light]) brs devs))))\<rparr>,
              res_action_summary = generateSummaryForAgent
                 (deduplicateIssues (allIssues (run_tuples w (matrix (if dark then [Light, Dark] else [Light]) brs devs))))\<rparr>"
    by (rule checkPage_Inr)
  let ?all = "allIssues (run_tuples w (matrix (if dark then [Light, Dark] else [Light]) brs devs))"
  have eq: "sum_blocks_release (res_summary r) = list_ex blocks_release (issues r)"
    by (simp add: r)
  have crit: "\<And>out. out \<in> set (issues r) \<Longrightarrow> blocks_release out \<Longrightarrow> severity out = Critical"
  proof -
    fix out assume "out \<in> set (issues r)" and b: "blocks_release out"
    then have "out \<in> set (deduplicateIssues ?all)" by (simp add: r)
    then obtain i v where i: "i \<in> set ?all" "out = i\<lparr>affected_devices := v\<rparr>"
      using deduplicateIssues_origin by blast
    with allIssues_run_tuples b show "severity out = Critical" by auto
  qed
  have "filter (\<lambda>i. severity i = Critical) (issues r) = [] \<longrightarrow> \<not> list_ex blocks_release (issues r)"
    using crit by (auto simp: list_ex_iff filter_empty_conv)
  with eq show ?thesis by simp
qed

text \<open>
  Claim C3. Once the profile is resolved, \<^verbatim>\<open>checkPage\<close> returns a result whatever
  happens at the tuples. Its check records are, in the order of the loops, one per tuple
  of colour schemes, browsers and devices; the record of a tuple whose visit threw has
  the status \<^verbatim>\<open>'error'\<close> and the message of the exception, and the tuples after it
  are processed all the same.
\<close>

theorem checkPage_total_over_matrix:
  assumes "getDevicesForProfile cfg profile = Inr (devs, brs)"
  shows "\<exists>r. checkPage cfg w url profile dark = Inr r
       \<and> length (checks r) = (if dark then 2 else 1) * length brs * length devs
       \<and> list_all2 (record_matches w)
            (numbered (matrix (if dark then [Light, Dark] else [Light]) brs devs)) (checks r)"
proof -
  let ?css = "if dark then [Light, Dark] else [Light]"
  let ?ts = "matrix ?css brs devs"
  let ?st = "run_tuples w ?ts"
  have all2: "list_all2 (record_matches w) (numbered ?ts) (st_checks ?st)"
    by (rule checks_run_tuples)
  have "length (st_checks ?st) = length ?css * length brs * length devs"
    using list_all2_lengthD [OF all2] by (simp add: length_numbered length_matrix)
  also have "length ?css = (if dark then 2 else 1)" by simp
  finally have len: "length (st_checks ?st) = (if dark then 2 else 1) * length brs * length devs" .
  have "\<exists>r. checkPage cfg w url profile dark = Inr r \<and> checks r = st_checks ?st"
    using assms by (simp add: checkPage_def Let_def run_matrix_flat)
  then show ?thesis using all2 len by auto
qed

text \<open>
  Claim C9. In a result of \<^verbatim>\<open>checkPage\<close>, \<^verbatim>\<open>summary.total\<close> counts the records
  whose status is not \<^verbatim>\<open>'error'\<close>, while every error record is counted in
  \<^verbatim>\<open>summary.failed\<close>, next to the visits whose issues include a critical one:
  passed, failed and warnings add up to the total plus the number of error records, so
  the total differs from their sum as soon as one tuple ends with an error.
\<close>

theorem checkPage_error_not_in_total:
  assumes "checkPage cfg w url profile dark = Inr r"
  shows "total (res_summary r) = length (filter (\<lambda>c. cr_status c \<noteq> St_error) (checks r))
       \<and> passed (res_summary r) + failed (res_summary r) + warnings (res_summary r) =
           total (res_summary r) + length (filter (\<lambda>c. cr_status c = St_error) (checks r))
       \<and> (\<forall>devs brs. getDevicesForProfile cfg profile = Inr (devs, brs) \<longrightarrow>
            failed (res_summary r) =
              length (filter (\<lambda>c. cr_status c = St_error) (checks r)) +
              count_status St_failed (map (visit_status w)
                (numbered (matrix (if dark then [Light, Dark] else [Light]) brs devs))))
       \<and> (list_ex (\<lambda>c. cr_status c = St_error) (checks r) \<longrightarrow>
            total (res_summary r) \<noteq>
            passed (res_summary r) + failed (res_summary r) + warnings (res_summary r))"
proof -
  from assms obtain devs brs where
    g: "getDevicesForProfile cfg profile = Inr (devs, brs)" and
    r: "r = \<lparr>res_url = url, res_profile = profile,
              checks = st_checks (run_tuples w (matrix (if dark then [Light, Dark] else [Light]) brs devs)),
              issues = deduplicateIssues (allIssues (run_tuples w (matrix (if dark then [Light, Dark] else [Light]) brs devs))),
              res_summary = (st_summary (run_tuples w (matrix (if dark then [Light, Dark] else [Light]) brs devs)))
                 \<lparr>sum_blocks_release := list_ex blocks_release
                    (deduplicateIssues (allIssues (run_tuples w (matrix (if dark then [Light, Dark] else [Light]) brs devs))))\<rparr>,
              res_action_summary = generateSummaryForAgent
                 (deduplicateIssues (allIssues (run_tuples w (matrix (if dark then [Light, Dark] else [Light]) brs devs))))\<rparr>"
    by (rule checkPage_Inr)
  let ?ts = "matrix (if dark then [Light, Dark] else [Light]) brs devs"
  let ?sts = "map (visit_status w) (numbered ?ts)"
  let ?s = "st_summary (run_tuples w ?ts)"
  let ?cs = "st_checks (run_tuples w ?ts)"
  let ?err = "length (filter (\<lambda>c. cr_status c = St_error) ?cs)"
  have all2: "list_all2 (record_matches w) (numbered ?ts) ?cs" by (rule checks_run_tuples)
  have len: "length ?cs = length ?ts"
    using list_all2_lengthD [OF all2] by (simp add: length_numbered)
  have err: "?err = count_status St_error ?sts" by (rule error_records_count [OF all2])
  have sums: "total ?s + count_status St_error ?sts = length ?ts"
      "passed ?s = count_status St_passed ?sts"
      "failed ?s = count_status St_failed ?sts + count_status St_error ?sts"
      "warnings ?s = count_status St_warning ?sts"
    using summary_run_tuples [of w ?ts] by simp_all
  have split: "length (filter (\<lambda>c. cr_status c \<noteq> St_error) ?cs) + ?err = length ?cs"
    using sum_length_filter_compl [of "\<lambda>c. cr_status c = St_error" ?cs] by simp
  have parts: "count_status St_passed ?sts + count_status St_failed ?sts
      + count_status St_warning ?sts + count_status St_error ?sts = length ?ts"
  proof -
    have "\<And>xs. count_status St_passed xs + count_status St_failed xs
      + count_status St_warning xs + count_status St_error xs = length xs"
    proof -
      fix xs :: "check_status list"
      show "count_status St_passed xs + count_status St_failed xs
        + count_status St_warning xs + count_status St_error xs = length xs"
        by (induction xs) (auto simp: count_status_def intro: check_status.exhaust)
    qed
    from this [of ?sts] show ?thesis by (simp add: length_numbered)
  qed
  have t: "total ?s = length (filter (\<lambda>c. cr_status c \<noteq> St_error) ?cs)"
    using sums(1) split len err by simp
  have pfw: "passed ?s + failed ?s + warnings ?s = total ?s + ?err"
    using sums parts err by simp
  have f: "failed ?s = ?err + count_status St_failed ?sts" using sums(3) err by simp
  have viol: "list_ex (\<lambda>c. cr_status c = St_error) ?cs \<longrightarrow>
      total ?s \<noteq> passed ?s + failed ?s + warnings ?s"
  proof
    assume "list_ex (\<lambda>c. cr_status c = St_error) ?cs"
    then have "filter (\<lambda>c. cr_status c = St_error) ?cs \<noteq> []"
      by (auto simp: list_ex_iff filter_empty_conv)
    then have "0 < ?err" by simp
    with pfw show "total ?s \<noteq> passed ?s + failed ?s + warnings ?s" by simp
  qed
  show ?thesis using t pfw f viol g by (simp add: r)
qed

section \<open>The contrast check\<close>

lemma getContrastRatio_wcag:
  "getContrastRatio (getLuminance (red fg) (green fg) (blue fg))
                    (getLuminance (red bg) (green bg) (blue bg)) = wcag_ratio fg bg"
  by (simp add: getContrastRatio_def getLuminance_def wcag_ratio_def wcag_luminance_def Let_def)

lemma low_contrast_iff:
  "low_contrast el \<longleftrightarrow>
     (\<exists>fg bg. te_color el = Some fg \<and> te_bgColor el = Some bg \<and>
        0 < red bg + green bg + blue bg \<and> 1 < wcag_ratio fg bg \<and> wcag_ratio fg bg < 4.5)"
  by (auto simp: low_contrast_def element_ratio_def ratio_guard_def getContrastRatio_wcag
      split: option.splits)

text \<open>
  Claim C5. When the contrast script runs, \<^verbatim>\<open>checkContrast\<close> reports the first five
  of the elements it flags, in document order, and so at most five. An element with
  parsed foreground and background colours and a background with \<open>r + g + b > 0\<close> is
  flagged exactly when its WCAG contrast ratio lies strictly between 1 and 4.5; an element
  with the ratio 4.5 is not flagged, nor is one without two parsed colours.
\<close>

theorem checkContrast_reports_low_ratio:
  assumes "textElements pg = Inr els"
  shows "checkContrast pg dev =
           map (\<lambda>el. contrast_issue dev (contrast_finding el)) (take 5 (filter low_contrast els))
       \<and> length (checkContrast pg dev) \<le> 5
       \<and> (\<forall>el fg bg. te_color el = Some fg \<and> te_bgColor el = Some bg \<and>
              0 < red bg + green bg + blue bg \<longrightarrow>
              (low_contrast el \<longleftrightarrow> 1 < wcag_ratio fg bg \<and> wcag_ratio fg bg < 4.5) \<and>
              (wcag_ratio fg bg = 4.5 \<longrightarrow> \<not> low_contrast el))
       \<and> (\<forall>el. te_color el = None \<or> te_bgColor el = None \<longrightarrow> \<not> low_contrast el)
       \<and> \<not> ratio_guard 4.5"
proof -
  have a: "checkContrast pg dev =
      map (\<lambda>el. contrast_issue dev (contrast_finding el)) (take 5 (filter low_contrast els))"
    using assms
    by (simp add: checkContrast_def lowContrastElements_def contrast_results_def take_map comp_def)
  have b: "length (checkContrast pg dev) \<le> 5" by (simp add: a)
  have c: "\<forall>el fg bg. te_color el = Some fg \<and> te_bgColor el = Some bg \<and>
              0 < red bg + green bg + blue bg \<longrightarrow>
              (low_contrast el \<longleftrightarrow> 1 < wcag_ratio fg bg \<and> wcag_ratio fg bg < 4.5) \<and>
              (wcag_ratio fg bg = 4.5 \<longrightarrow> \<not> low_contrast el)"
    by (auto simp: low_contrast_iff)
  have d: "\<forall>el. te_color el = None \<or> te_bgColor el = None \<longrightarrow> \<not> low_contrast el"
    by (auto simp: low_contrast_iff)
  have e: "\<not> ratio_guard 4.5" by (simp add: ratio_guard_def)
  show ?thesis using a b c d e by blast
qed

lemma low_dim: "low_contrast (dim_text eid)"
  by (simp add: low_contrast_def element_ratio_def dim_text_def getContrastRatio_def
      getLuminance_def channel_def ratio_guard_def Let_def)

lemma not_low_same: "\<not> low_contrast same_colour_text"
  by (simp add: low_contrast_def element_ratio_def same_colour_text_def getContrastRatio_def
      getLuminance_def channel_def ratio_guard_def Let_def)

lemma not_low_transparent: "\<not> low_contrast transparent_text"
  by (simp add: low_contrast_def element_ratio_def transparent_text_def)

theorem checkContrast_reports_low_ratio_witness:
  "map fix_target (checkContrast contrast_page iphone) = [''#t1'', ''#t2'', ''#t3'', ''#t4'', ''#t5'']
   \<and> length (checkContrast contrast_page iphone) \<le> 5"
proof -
  have t: "textElements contrast_page =
      Inr [same_colour_text, dim_text ''t1'', transparent_text, dim_text ''t2'',
           dim_text ''t3'', dim_text ''t4'', dim_text ''t5'', dim_text ''t6'']"
    by (simp add: contrast_page_def clean_page_def)
  have sel: "\<And>eid. eid \<noteq> [] \<Longrightarrow> fix_target (contrast_issue iphone (contrast_finding (dim_text eid))) = CHR ''#'' # eid"
    by (simp add: contrast_issue_def contrast_finding_def dim_text_def css_selector_def)
  show ?thesis
    using checkContrast_reports_low_ratio [OF t, of iphone]
    by (simp add: low_dim not_low_same not_low_transparent sel)
qed

section \<open>Pixel comparison, profiles and issue ids\<close>

text \<open>
  Claim C4. When both images decode and differ in width or in height, \<^verbatim>\<open>compare\<close>
  returns the size mismatch object with the two pairs of dimensions and without
  \<^verbatim>\<open>match\<close>, \<^verbatim>\<open>diffPixels\<close>, \<^verbatim>\<open>totalPixels\<close> and \<^verbatim>\<open>diffPercent\<close>; it
  writes no file, and the result is the same whatever \<^verbatim>\<open>pixelmatch\<close> and the file
  writer would do, so that no comparison runs.
\<close>

theorem compare_size_mismatch:
  assumes "loadPNG image1Path = Some img1" and "loadPNG image2Path = Some img2"
    and "png_width img1 \<noteq> png_width img2 \<or> png_height img1 \<noteq> png_height img2"
  shows "\<exists>res. compare loadPNG pixelmatch savePNG image1Path image2Path outputDiffPath = Inr (res, [])
       \<and> success res = False \<and> sizeMismatch res = Some True
       \<and> image1 res = Some (png_width img1, png_height img1)
       \<and> image2 res = Some (png_width img2, png_height img2)
       \<and> match res = None \<and> diffPixels res = None \<and> totalPixels res = None
       \<and> diffPercent res = None \<and> dimensions res = None \<and> diffImagePath res = None
       \<and> compare loadPNG pixelmatch' savePNG' image1Path image2Path outputDiffPath = Inr (res, [])"
  using assms by (auto simp: compare_def no_result_def)

theorem compare_size_mismatch_witness:
  "\<exists>res. compare example_files count_differences save_ok ''baseline/home.png'' ''current/wide.png''
             (Some ''diff/home.png'') = Inr (res, [])
       \<and> success res = False \<and> sizeMismatch res = Some True
       \<and> image1 res = Some (1, 1) \<and> image2 res = Some (2, 1)
       \<and> match res = None \<and> diffPixels res = None \<and> diffPercent res = None"
proof -
  have a: "example_files ''baseline/home.png'' = Some small_png"
    and b: "example_files ''current/wide.png'' = Some wide_png"
    by (simp_all add: example_files_def)
  have c: "png_width small_png \<noteq> png_width wide_png \<or> png_height small_png \<noteq> png_height wide_png"
    by (simp add: small_png_def wide_png_def)
  show ?thesis
    using compare_size_mismatch [OF a b c, of count_differences save_ok "Some ''diff/home.png''" count_differences save_ok]
    by (auto simp: small_png_def wide_png_def)
qed

lemma percent_zero: "0 < n \<Longrightarrow> toFixed4 (percent_of 0 n) = Num 0"
  by (simp add: percent_of_def)

lemma compare_writes_only_differences:
  assumes "compare loadPNG pixelmatch savePNG p1 p2 out = Inr (res, files)" and "files \<noteq> []"
  shows "\<exists>n. 0 < n \<and> diffPixels res = Some n"
  using assms
  by (auto simp: compare_def no_result_def Let_def
      split: option.splits prod.splits if_splits)

lemma compare_same_image:
  assumes "loadPNG image1Path = Some img" and "loadPNG image2Path = Some img"
    and "fst (pixelmatch (png_data img) (png_data img) (png_width img) (png_height img)) = 0"
    and "0 < png_width img" and "0 < png_height img"
  shows "\<exists>res. compare loadPNG pixelmatch savePNG image1Path image2Path outputDiffPath = Inr (res, [])
       \<and> success res \<and> match res = Some True \<and> diffPixels res = Some 0
       \<and> diffPercent res = Some (Num 0) \<and> diffImagePath res = None"
  using assms
  by (auto simp: compare_def no_result_def Let_def percent_zero split: prod.splits option.splits)

text \<open>
  Claim C8. For an image that decodes, with the positive dimensions a PNG has, and a
  \<^verbatim>\<open>pixelmatch\<close> that counts no difference between a buffer and itself, comparing
  the image with itself gives \<^verbatim>\<open>match\<close> true, \<^verbatim>\<open>diffPixels\<close> 0 and
  \<^verbatim>\<open>diffPercent\<close> 0 and writes no diff file. In any comparison a diff file is
  written only with a positive number of differing pixels.
\<close>

theorem compare_identical:
  assumes "loadPNG image1Path = Some img" and "loadPNG image2Path = Some img"
    and "fst (pixelmatch (png_data img) (png_data img) (png_width img) (png_height img)) = 0"
    and "0 < png_width img" and "0 < png_height img"
  shows "(\<exists>res. compare loadPNG pixelmatch savePNG image1Path image2Path outputDiffPath = Inr (res, [])
          \<and> success res \<and> match res = Some True \<and> diffPixels res = Some 0
          \<and> diffPercent res = Some (Num 0) \<and> diffImagePath res = None)
       \<and> (\<forall>p1 p2 out res files.
            compare loadPNG pixelmatch savePNG p1 p2 out = Inr (res, files) \<and> files \<noteq> [] \<longrightarrow>
            (\<exists>n. 0 < n \<and> diffPixels res = Some n))"
proof
  show "\<exists>res. compare loadPNG pixelmatch savePNG image1Path image2Path outputDiffPath = Inr (res, [])
          \<and> success res \<and> match res = Some True \<and> diffPixels res = Some 0
          \<and> diffPercent res = Some (Num 0) \<and> diffImagePath res = None"
    using assms by (intro compare_same_image [where img = img]) simp_all
  show "\<forall>p1 p2 out res files.
            compare loadPNG pixelmatch savePNG p1 p2 out = Inr (res, files) \<and> files \<noteq> [] \<longrightarrow>
            (\<exists>n. 0 < n \<and> diffPixels res = Some n)"
    using compare_writes_only_differences [of loadPNG pixelmatch savePNG] by blast
qed

theorem compare_identical_witness:
  "\<exists>res. compare example_files count_differences save_ok ''baseline/home.png'' ''current/home.png''
             (Some ''diff/home.png'') = Inr (res, [])
       \<and> success res \<and> match res = Some True \<and> diffPixels res = Some 0
       \<and> diffPercent res = Some (Num 0) \<and> diffImagePath res = None"
proof -
  have a: "example_files ''baseline/home.png'' = Some small_png"
    and b: "example_files ''current/home.png'' = Some small_png"
    by (simp_all add: example_files_def)
  have c: "fst (count_differences (png_data small_png) (png_data small_png)
      (png_width small_png) (png_height small_png)) = 0"
    by (simp add: count_differences_def small_png_def)
  have d: "0 < png_width small_png" and e: "0 < png_height small_png"
    by (simp_all add: small_png_def)
  show ?thesis
    using compare_identical [of example_files "''baseline/home.png''" small_png
        "''current/home.png''" count_differences save_ok "Some ''diff/home.png''"] a b c d e
    by simp
qed

lemma getDevicesForProfile_unknown_profile:
  "map_of (test_profiles cfg) profileName = None \<Longrightarrow>
   \<exists>msg. getDevicesForProfile cfg profileName = Inl (Error msg)"
  by (simp add: getDevicesForProfile_def)

text \<open>
  Claim C7. The claim asks that a device id of a profile that no category has be a
  configuration error. The code resolves the profile \<^verbatim>\<open>quick\<close> of the example
  configuration, which lists \<^verbatim>\<open>iphone_14\<close> and the unknown \<^verbatim>\<open>pixel_9\<close>, to the
  device list that only leaves the unknown id out.
\<close>

theorem getDevicesForProfile_omits_unknown_id:
  "getDevicesForProfile example_config ''quick'' = Inr ([iphone], [''chromium''])
   \<and> ''pixel_9'' \<notin> set (map dev_id [iphone])"
  by (simp add: getDevicesForProfile_def example_config_def iphone_def with_id_def)

text \<open>
  Claim C6. The claim asks that the id of an issue hold the target selector, so that two
  issues of one check on one device with different target selectors have different ids.
  On a page with two images without alt text the image check gives, on one device, two
  issues with the target selectors \<^verbatim>\<open>#logo\<close> and \<^verbatim>\<open>#hero\<close> and the same id,
  which holds neither a selector nor the title.
\<close>

theorem detectIssues_img_alt_same_id:
  "map issue_id (detectIssues two_images_page iphone) = [''img-alt-iphone_14'', ''img-alt-iphone_14'']
   \<and> map fix_target (detectIssues two_images_page iphone) = [''#logo'', ''#hero'']
   \<and> map title (detectIssues two_images_page iphone) =
       [''Izobrazhenie bez alt-teksta'', ''Izobrazhenie bez alt-teksta'']"
  by (simp add: detectIssues_def two_images_page_def clean_page_def iphone_def with_id_def
     checkHorizontalScroll_def checkOverflow_def checkTouchTargets_def checkContrast_def
     lowContrastElements_def contrast_results_def checkFontSize_def
     checkImageAlt_def checkOverlap_def img_alt_issue_def prioritizeIssues_def compareIssues_def)

text \<open>
  The touch target, contrast and font size checks do put the selector into the id: two
  of their issues on one device with different target selectors have different ids.
\<close>

lemma detected_selector_id:
  assumes "i \<in> set (detectIssues pg dev)" and "selector_check i = Some check"
  shows "issue_id i = check @ ''-'' @ fix_target i @ ''-'' @ dev_id dev
       \<and> map_option selector (element i) = Some (fix_target i)"
  using detectIssues_cases [OF assms(1)] checkHorizontalScroll_Some [of pg dev i] assms(2)
  by (auto simp: selector_check_def overflow_issue_def touch_issue_def contrast_issue_def
        font_issue_def img_alt_issue_def text_element_of_def split: if_splits)

lemma selector_checks_distinct_ids:
  assumes "i \<in> set (detectIssues pg dev)" and "j \<in> set (detectIssues pg dev)"
    and "selector_check i = Some check" and "selector_check j = Some check"
    and "fix_target j \<noteq> fix_target i"
  shows "issue_id j \<noteq> issue_id i"
proof -
  have "issue_id i = check @ ''-'' @ fix_target i @ ''-'' @ dev_id dev"
    using detected_selector_id [OF assms(1) assms(3)] by simp
  moreover have "issue_id j = check @ ''-'' @ fix_target j @ ''-'' @ dev_id dev"
    using detected_selector_id [OF assms(2) assms(4)] by simp
  ultimately show ?thesis using assms(5) by simp
qed

theorem deduplicateIssues_one_per_key_witness:
  "filter (\<lambda>out. itype out = Accessibility \<and> selector_or_title out = ''#footer'')
     (deduplicateIssues repeated_issues) =
   [(contrast_issue iphone footer_finding)\<lparr>affected_devices := Some [''iPhone 14'', ''Desktop HD'']\<rparr>]"
proof -
  have key: "\<And>d. itype (contrast_issue d footer_finding) = Accessibility \<and>
      selector_or_title (contrast_issue d footer_finding) = ''#footer''"
    by (simp add: contrast_issue_def selector_or_title_def text_element_of_def footer_finding_def)
  have nkey: "itype (font_issue iphone footer_finding) \<noteq> Accessibility"
    by (simp add: font_issue_def)
  have dev: "\<And>d. device (contrast_issue d footer_finding) = name d"
    by (simp add: contrast_issue_def)
  have names: "name iphone = ''iPhone 14''" "name desktop = ''Desktop HD''"
    by (simp_all add: iphone_def desktop_def with_id_def iphone_config_def desktop_config_def)
  have f: "find (\<lambda>j. itype j = Accessibility \<and> selector_or_title j = ''#footer'') repeated_issues =
      Some (contrast_issue iphone footer_finding)"
    by (simp add: repeated_issues_def key)
  show ?thesis
    using deduplicateIssues_one_per_key [OF f]
    by (simp add: repeated_issues_def key nkey dev names first_occurrences_def)
qed

lemma example_quick_devices:
  "getDevicesForProfile example_config ''quick'' = Inr ([iphone], [''chromium''])"
  by (simp add: getDevicesForProfile_def example_config_def iphone_def)

lemma example_run:
  "map_sum id (\<lambda>r. (res_summary r, map blocks_release (issues r), map cr_status (checks r)))
     (checkPage example_config example_world ''https://example.org'' ''quick'' True) =
   Inr (\<lparr>total = 1, passed = 0, failed = 2, warnings = 0, sum_blocks_release = True\<rparr>,
        [True, True], [St_passed, St_error])"
  by code_simp

theorem checkPage_total_over_matrix_witness:
  "\<exists>r. checkPage example_config example_world ''https://example.org'' ''quick'' True = Inr r
     \<and> length (checks r) = 2
     \<and> list_all2 (record_matches example_world)
          (numbered (matrix [Light, Dark] [''chromium''] [iphone])) (checks r)"
  using checkPage_total_over_matrix [OF example_quick_devices, of example_world "''https://example.org''" True]
  by simp

theorem checkPage_blocks_release_witness:
  "\<exists>r. checkPage example_config example_world ''https://example.org'' ''quick'' True = Inr r
     \<and> list_ex blocks_release (issues r) \<and> sum_blocks_release (res_summary r)"
proof -
  from example_run obtain r where
    r: "checkPage example_config example_world ''https://example.org'' ''quick'' True = Inr r"
    and b: "map blocks_release (issues r) = [True, True]"
    by (cases "checkPage example_config example_world ''https://example.org'' ''quick'' True") auto
  from b have "list_ex blocks_release (issues r)"
    by (cases "issues r") (auto simp: list_ex_iff)
  with checkPage_blocks_release [OF r] r show ?thesis by blast
qed

theorem checkPage_error_not_in_total_witness:
  "\<exists>r. checkPage example_config example_world ''https://example.org'' ''quick'' True = Inr r
     \<and> map cr_status (checks r) = [St_passed, St_error]
     \<and> total (res_summary r) = 1
     \<and> passed (res_summary r) + failed (res_summary r) + warnings (res_summary r) = 2
     \<and> total (res_summary r) \<noteq>
         passed (res_summary r) + failed (res_summary r) + warnings (res_summary r)"
proof -
  from example_run obtain r where
    r: "checkPage example_config example_world ''https://example.org'' ''quick'' True = Inr r"
    and c: "map cr_status (checks r) = [St_passed, St_error]"
    by (cases "checkPage example_config example_world ''https://example.org'' ''quick'' True") auto
  from c obtain c1 c2 where cs: "checks r = [c1, c2]" "cr_status c1 = St_passed" "cr_status c2 = St_error"
    by (auto simp: map_eq_Cons_conv)
  from checkPage_error_not_in_total [OF r] show ?thesis
    using r c cs by (intro exI [of _ r]) simp
qed

end
